theory Spec2Isabelle
  imports Main "HOL-Library.AList" "HOL-Library.Code_Target_Numeral"
begin

section \<open>Errors and library values\<close>

text \<open>
  Every \<open>throw\<close> of the TypeScript and every rejected promise is a value \<open>Inl e\<close> of
  \<open>error + 'a\<close>; a normal return is \<open>Inr x\<close>.
\<close>

datatype error =
    NumericFault string
  | InvalidArgument string
  | SenderMismatch string
  | TypeError
  | ProviderError string

definition bind :: "error + 'a \<Rightarrow> ('a \<Rightarrow> error + 'b) \<Rightarrow> error + 'b" where
  "bind r f = (case r of Inl e \<Rightarrow> Inl e | Inr x \<Rightarrow> f x)"

text \<open>
  \<open>ethers.BigNumber\<close> is an arbitrary-precision integer: \<open>int\<close>. A JavaScript
  \<open>number\<close> that holds a block number, a gas limit or a timestamp is modelled by the
  integer it holds. \<open>BigNumberish\<close> keeps apart the three run-time shapes that reach
  \<open>BigNumber.from\<close> in this code.
\<close>

datatype BigNumberish = Num int | Big int | Str string

definition MAX_SAFE :: int where
  "MAX_SAFE = 9007199254740991"

subsection \<open>Decimal strings\<close>

definition digit_char :: "nat \<Rightarrow> char" where
  "digit_char d = char_of (48 + d)"

definition is_digit :: "char \<Rightarrow> bool" where
  "is_digit c = (48 \<le> (of_char c :: nat) \<and> (of_char c :: nat) \<le> 57)"

definition digit_val :: "char \<Rightarrow> nat" where
  "digit_val c = of_char c - 48"

function dec_nat :: "nat \<Rightarrow> string" where
  "dec_nat n = (if n < 10 then [digit_char n] else dec_nat (n div 10) @ [digit_char (n mod 10)])"
  by pat_completeness auto
termination
  by (relation "measure (\<lambda>n. n)") auto

declare dec_nat.simps [simp del]

definition dec_val :: "string \<Rightarrow> nat" where
  "dec_val s = foldl (\<lambda>a c. 10 * a + digit_val c) 0 s"

text \<open>\<open>BigNumber.prototype.toString\<close>: the decimal rendering, with a sign.\<close>

definition BigNumber_toString :: "int \<Rightarrow> string" where
  "BigNumber_toString n =
     (if n < 0 then CHR ''-'' # dec_nat (nat (- n)) else dec_nat (nat n))"

text \<open>
  The part of the ethers library this code calls and whose body is not restated here:
  \<open>ethers.utils.keccak256\<close> on a hex string, \<open>ethers.utils.getAddress\<close> (validation and
  checksum of an address string; it rejects what is not an address), and what
  \<open>BigNumber.from\<close> does with a string that is not a decimal literal (it reads a hex
  literal and rejects the rest). All definitions below take the library as a parameter and
  all theorems hold for every library.
\<close>

record ethers =
  keccak256 :: "string \<Rightarrow> string"
  getAddress :: "string \<Rightarrow> error + string"
  from_nondecimal :: "string \<Rightarrow> error + int"

text \<open>
  \<open>BigNumber.from\<close>: a \<open>BigNumber\<close> is returned as it is; a \<open>number\<close> must be a safe
  integer; a string matching \<open>^-?[0-9]+$\<close> is read as decimal.
\<close>

definition BigNumber_from :: "ethers \<Rightarrow> BigNumberish \<Rightarrow> error + int" where
  "BigNumber_from lib v =
     (case v of
        Big n \<Rightarrow> Inr n
      | Num n \<Rightarrow>
          (if n \<ge> MAX_SAFE \<or> n \<le> - MAX_SAFE then Inl (NumericFault ''overflow'') else Inr n)
      | Str s \<Rightarrow>
          (case s of
             CHR ''-'' # r \<Rightarrow>
               (if r \<noteq> [] \<and> list_all is_digit r then Inr (- int (dec_val r))
                else from_nondecimal lib s)
           | _ \<Rightarrow>
               (if s \<noteq> [] \<and> list_all is_digit s then Inr (int (dec_val s))
                else from_nondecimal lib s)))"

text \<open>\<open>BigNumber.prototype.toNumber\<close>: throws unless the value fits 53 bits.\<close>

definition BigNumber_toNumber :: "int \<Rightarrow> error + int" where
  "BigNumber_toNumber n =
     (if \<bar>n\<bar> < 2 ^ 53 then Inr n else Inl (NumericFault ''overflow''))"

text \<open>\<open>BigNumber.prototype.or\<close>: refuses negative operands.\<close>

definition BigNumber_or :: "int \<Rightarrow> int \<Rightarrow> error + int" where
  "BigNumber_or a b =
     (if a < 0 \<or> b < 0 then Inl (NumericFault ''unbound-bitwise-result'') else Inr (or a b))"

definition BigNumber_shl :: "int \<Rightarrow> nat \<Rightarrow> error + int" where
  "BigNumber_shl a k =
     (if a < 0 then Inl (NumericFault ''negative-width'') else Inr (push_bit k a))"

section \<open>The ABI encoding of \<open>relayMessage\<close>\<close>

text \<open>
  \<open>Interface.encodeFunctionData\<close> for the one fragment this code encodes,
  \<open>relayMessage(uint256,address,address,uint256,uint256,bytes)\<close>: the result is the hex
  string of the four selector bytes, six head words and the tail of the \<open>bytes\<close> argument.
  A byte string is kept as its lower-case hex digits, two per byte.
\<close>

definition hex_char :: "nat \<Rightarrow> char" where
  "hex_char d = (if d < 10 then char_of (48 + d) else char_of (87 + d))"

definition is_hex_digit :: "char \<Rightarrow> bool" where
  "is_hex_digit c =
     (let n = (of_char c :: nat)
      in (48 \<le> n \<and> n \<le> 57) \<or> (97 \<le> n \<and> n \<le> 102) \<or> (65 \<le> n \<and> n \<le> 70))"

definition hex_digit_val :: "char \<Rightarrow> nat" where
  "hex_digit_val c =
     (let n = (of_char c :: nat)
      in if n \<le> 57 then n - 48 else if 97 \<le> n then n - 87 else n - 55)"

definition hex_val :: "string \<Rightarrow> nat" where
  "hex_val s = foldl (\<lambda>a c. 16 * a + hex_digit_val c) 0 s"

definition lower_char :: "char \<Rightarrow> char" where
  "lower_char c =
     (let n = (of_char c :: nat) in if 65 \<le> n \<and> n \<le> 90 then char_of (n + 32) else c)"

text \<open>\<open>String.prototype.toLowerCase\<close>, on the ASCII strings this code holds.\<close>

definition toLowerCase :: "string \<Rightarrow> string" where
  "toLowerCase s = map lower_char s"

text \<open>One 32-byte word, big-endian: 64 hex digits.\<close>

definition hex_word :: "nat \<Rightarrow> string" where
  "hex_word n = map (\<lambda>i. hex_char ((n div 16 ^ (63 - i)) mod 16)) [0..<64]"

text \<open>\<open>hexlify(toUtf8Bytes(text))\<close> without the \<open>0x\<close>.\<close>

definition hex_of_text :: "string \<Rightarrow> string" where
  "hex_of_text s =
     concat (map (\<lambda>c. [hex_char ((of_char c :: nat) div 16), hex_char ((of_char c :: nat) mod 16)]) s)"

definition relayMessage_signature :: string where
  "relayMessage_signature = ''relayMessage(uint256,address,address,uint256,uint256,bytes)''"

text \<open>\<open>Interface.getSighash\<close>: the first four bytes of \<open>id(signature)\<close>, without the \<open>0x\<close>.\<close>

definition sighash :: "ethers \<Rightarrow> string" where
  "sighash lib = take 8 (drop 2 (keccak256 lib (''0x'' @ hex_of_text relayMessage_signature)))"

text \<open>The \<open>uint256\<close> coder: \<open>BigNumber.from\<close>, then the bounds check.\<close>

definition encode_uint256 :: "ethers \<Rightarrow> BigNumberish \<Rightarrow> error + string" where
  "encode_uint256 lib v =
     bind (BigNumber_from lib v) (\<lambda>n.
       if n < 0 \<or> n > 2 ^ 256 - 1 then Inl (InvalidArgument ''value out-of-bounds'')
       else Inr (hex_word (nat n)))"

text \<open>The \<open>address\<close> coder: \<open>getAddress\<close>, then the value left-padded to a word.\<close>

definition encode_address :: "ethers \<Rightarrow> string \<Rightarrow> error + string" where
  "encode_address lib a = bind (getAddress lib a) (\<lambda>c. Inr (hex_word (hex_val (drop 2 c))))"

text \<open>\<open>arrayify\<close> of a string: \<open>0x\<close> and an even number of hex digits.\<close>

definition arrayify :: "string \<Rightarrow> error + string" where
  "arrayify d =
     (case d of
        CHR ''0'' # CHR ''x'' # h \<Rightarrow>
          (if list_all is_hex_digit h then
             (if even (length h) then Inr (toLowerCase h)
              else Inl (InvalidArgument ''hex data is odd-length''))
           else Inl (InvalidArgument ''invalid arrayify value''))
      | _ \<Rightarrow> Inl (InvalidArgument ''invalid arrayify value''))"

text \<open>The \<open>bytes\<close> coder: the length word, the bytes, zero padding to a whole word.\<close>

definition encode_bytes :: "string \<Rightarrow> error + string" where
  "encode_bytes d =
     bind (arrayify d) (\<lambda>h.
       Inr (hex_word (length h div 2) @ h @ replicate ((64 - length h mod 64) mod 64) CHR ''0''))"

definition encodeFunctionData_relayMessage ::
  "ethers \<Rightarrow> BigNumberish \<Rightarrow> string \<Rightarrow> string \<Rightarrow> BigNumberish \<Rightarrow> BigNumberish \<Rightarrow> string
     \<Rightarrow> error + string" where
  "encodeFunctionData_relayMessage lib nonce sender target val gasLimit dat =
     bind (encode_uint256 lib nonce) (\<lambda>n.
     bind (encode_address lib sender) (\<lambda>s.
     bind (encode_address lib target) (\<lambda>t.
     bind (encode_uint256 lib val) (\<lambda>v.
     bind (encode_uint256 lib gasLimit) (\<lambda>g.
     bind (encode_bytes dat) (\<lambda>b.
       Inr (''0x'' @ sighash lib @ n @ s @ t @ v @ g @ hex_word 192 @ b)))))))"

section \<open>optimism.ts: relaying on the destination chain\<close>

text \<open>
  The responses of the L2 provider during one call. \<open>l2_queryRelayedMessage\<close> gives the
  \<open>msgHash\<close> arguments of the \<open>RelayedMessage\<close> logs of a range;
  \<open>l2_setBalance\<close> is \<open>tenderly_setBalance\<close> on the messenger alias;
  \<open>l2_sendTransaction\<close> is \<open>eth_sendTransaction\<close> from the messenger alias to the L2
  messenger (both addresses are constants of the repository); a receipt is \<open>None\<close> for
  \<open>null\<close>.
\<close>

record TxParams =
  tx_data :: string
  tx_value :: "int option"

record Receipt =
  receipt_blockNumber :: int

record L2Provider =
  l2_getBlockNumber :: "error + int"
  l2_queryRelayedMessage :: "int \<Rightarrow> int \<Rightarrow> error + string list"
  l2_setBalance :: "int \<Rightarrow> error + unit"
  l2_sendTransaction :: "TxParams \<Rightarrow> error + string"
  l2_getTransactionReceipt :: "string \<Rightarrow> error + Receipt option"

text \<open>
  \<open>ethers.BigNumber.from(1).shl(240).or(ethers.BigNumber.from(nonce))\<close>, the first
  statement of \<open>relayL1Message\<close>.
\<close>

definition versionedNonce :: "ethers \<Rightarrow> BigNumberish \<Rightarrow> error + int" where
  "versionedNonce lib nonce =
     bind (BigNumber_from lib (Num 1)) (\<lambda>one.
     bind (BigNumber_shl one 240) (\<lambda>shifted.
     bind (BigNumber_from lib nonce) (\<lambda>n.
       BigNumber_or shifted n)))"

text \<open>
  Modelled from the spec: the ABI of the L2 messenger (\<open>L2CrossDomainMessenger.json\<close>)
  is not among the source files. Its relay entry point takes
  \<open>(versionedNonce, sender, target, value, gasLimit, payload)\<close>, which is the fragment
  that \<open>encodeCrossDomainMessageV1\<close> spells out, so
  \<open>populateTransaction.relayMessage\<close> is \<open>encodeFunctionData_relayMessage\<close>.

  The rest is the \<open>try\<close> block of \<open>relayL1Message\<close>, for a versioned nonce: the
  balance of the messenger alias is set when the value is not zero, the call is encoded,
  sent, and its receipt read; the \<open>catch\<close> rethrows.
\<close>

definition relayL1Message_try ::
  "ethers \<Rightarrow> L2Provider \<Rightarrow> int \<Rightarrow> string \<Rightarrow> string \<Rightarrow> string \<Rightarrow> int \<Rightarrow> int \<Rightarrow> error + Receipt" where
  "relayL1Message_try lib provider versioned l1Sender target message val minGasLimit =
     bind (if val \<noteq> 0 then l2_setBalance provider val else Inr ()) (\<lambda>_.
     bind (encodeFunctionData_relayMessage lib (Big versioned) l1Sender target (Big val)
             (Num minGasLimit) message) (\<lambda>calldata.
     bind (l2_sendTransaction provider
             \<lparr>tx_data = calldata, tx_value = (if val \<noteq> 0 then Some val else None)\<rparr>) (\<lambda>txHash.
     bind (l2_getTransactionReceipt provider txHash) (\<lambda>receipt.
       case receipt of None \<Rightarrow> Inl TypeError | Some r \<Rightarrow> Inr r))))"

definition relayL1Message ::
  "ethers \<Rightarrow> L2Provider \<Rightarrow> string \<Rightarrow> string \<Rightarrow> string \<Rightarrow> BigNumberish \<Rightarrow> int \<Rightarrow> int
     \<Rightarrow> error + Receipt" where
  "relayL1Message lib provider l1Sender target message nonce val minGasLimit =
     bind (versionedNonce lib nonce) (\<lambda>versioned.
       relayL1Message_try lib provider versioned l1Sender target message val minGasLimit)"

section \<open>optimism.ts: the Message Identity Function\<close>

definition encodeCrossDomainMessageV1 ::
  "ethers \<Rightarrow> BigNumberish \<Rightarrow> string \<Rightarrow> string \<Rightarrow> int \<Rightarrow> BigNumberish \<Rightarrow> string \<Rightarrow> error + string" where
  "encodeCrossDomainMessageV1 lib nonce sender target val gasLimit dat =
     encodeFunctionData_relayMessage lib nonce sender target (Big val) gasLimit dat"

definition hashCrossDomainMessageV1 ::
  "ethers \<Rightarrow> BigNumberish \<Rightarrow> string \<Rightarrow> string \<Rightarrow> int \<Rightarrow> BigNumberish \<Rightarrow> string \<Rightarrow> error + string" where
  "hashCrossDomainMessageV1 lib nonce sender target val gasLimit dat =
     bind (encodeCrossDomainMessageV1 lib nonce sender target val gasLimit dat) (\<lambda>encodedMessage.
       Inr (keccak256 lib encodedMessage))"

section \<open>optimism.ts: scanning the source chain\<close>

text \<open>
  The two event streams of the L1 messenger, as \<open>queryFilter\<close> returns them: the decoded
  arguments and the log's block number and transaction hash.
\<close>

record SentMessageEvent =
  args_target :: string
  args_sender :: string
  args_message :: string
  args_messageNonce :: int
  args_gasLimit :: int
  ev_blockNumber :: int
  ev_transactionHash :: string

record ExtensionEvent =
  ext_sender :: string
  ext_value :: int
  ext_transactionHash :: string

record SentMessage =
  messageHash :: string
  sender :: string
  target :: string
  message :: string
  messageNonce :: string
  gasLimit :: int
  msg_value :: int
  blockNumber :: int
  transactionHash :: string

text \<open>
  The responses of the L1 provider during one call. \<open>getBlock\<close> gives the block's
  timestamp, or \<open>None\<close> for \<open>null\<close>.
\<close>

record L1Provider =
  l1_getBlockNumber :: "error + int"
  l1_querySentMessage :: "int \<Rightarrow> int \<Rightarrow> error + SentMessageEvent list"
  l1_queryExtension :: "int \<Rightarrow> int \<Rightarrow> error + ExtensionEvent list"
  l1_getBlock :: "int \<Rightarrow> error + int option"

text \<open>\<open>Promise.all\<close> over promises that are already settled: the first rejection, or all results.\<close>

fun Promise_all :: "(error + 'a) list \<Rightarrow> error + 'a list" where
  "Promise_all [] = Inr []"
| "Promise_all (r # rs) =
     (case r of
        Inl e \<Rightarrow> Inl e
      | Inr x \<Rightarrow> (case Promise_all rs of Inl e \<Rightarrow> Inl e | Inr xs \<Rightarrow> Inr (x # xs)))"

text \<open>The callback of \<open>sentMessageEvents.map\<close> in \<open>getSentMessageEvents\<close>.\<close>

definition sentMessageOfEvent ::
  "ethers \<Rightarrow> ExtensionEvent list \<Rightarrow> SentMessageEvent \<Rightarrow> error + SentMessage" where
  "sentMessageOfEvent lib extensionEvents event =
     (let extensionEvent =
            find (\<lambda>ext. ext_transactionHash ext = ev_transactionHash event) extensionEvents
      in case extensionEvent of
           Some ext \<Rightarrow>
             (if toLowerCase (ext_sender ext) \<noteq> toLowerCase (args_sender event)
              then Inl (SenderMismatch (ev_transactionHash event))
              else
                bind (hashCrossDomainMessageV1 lib (Big (args_messageNonce event))
                        (args_sender event) (args_target event) (ext_value ext)
                        (Big (args_gasLimit event)) (args_message event)) (\<lambda>h.
                bind (BigNumber_toNumber (args_gasLimit event)) (\<lambda>g.
                  Inr \<lparr>messageHash = h, sender = args_sender event, target = args_target event,
                       message = args_message event,
                       messageNonce = BigNumber_toString (args_messageNonce event),
                       gasLimit = g, msg_value = ext_value ext,
                       blockNumber = ev_blockNumber event,
                       transactionHash = ev_transactionHash event\<rparr>)))
         | None \<Rightarrow>
             bind (hashCrossDomainMessageV1 lib (Big (args_messageNonce event))
                     (args_sender event) (args_target event) 0
                     (Big (args_gasLimit event)) (args_message event)) (\<lambda>h.
             bind (BigNumber_toNumber (args_gasLimit event)) (\<lambda>g.
               Inr \<lparr>messageHash = h, sender = args_sender event, target = args_target event,
                    message = args_message event,
                    messageNonce = BigNumber_toString (args_messageNonce event),
                    gasLimit = g, msg_value = 0,
                    blockNumber = ev_blockNumber event,
                    transactionHash = ev_transactionHash event\<rparr>)))"

definition getSentMessageEvents ::
  "ethers \<Rightarrow> L1Provider \<Rightarrow> int \<Rightarrow> int \<Rightarrow> error + SentMessage list" where
  "getSentMessageEvents lib provider fromBlock toBlock =
     bind (l1_querySentMessage provider fromBlock toBlock) (\<lambda>sentMessageEvents.
     bind (l1_queryExtension provider fromBlock toBlock) (\<lambda>extensionEvents.
       Promise_all (map (sentMessageOfEvent lib extensionEvents) sentMessageEvents)))"

definition getRelayedMessageEvents :: "L2Provider \<Rightarrow> int \<Rightarrow> int \<Rightarrow> error + string list" where
  "getRelayedMessageEvents provider fromBlock toBlock =
     bind (l2_queryRelayedMessage provider fromBlock toBlock) (\<lambda>events. Inr events)"

section \<open>message-relayer/service.ts\<close>

text \<open>
  The types \<open>Message\<close>, \<open>Options\<close>, \<open>State\<close> and \<open>Metrics\<close> of the service. Of the
  options, the two start blocks are kept: the providers are the records above, and the
  sleep time and the balance thresholds are read only by the sleep and by
  \<open>ensureMessengerBalance\<close>, whose call in \<open>main\<close> is commented out; the gauge
  \<open>messengerBalance\<close> is written only there. A gauge is the number it holds.
\<close>

record Message = SentMessage +
  timestamp :: int
  isRelayed :: bool

record Options =
  l1StartBlock :: int
  l2StartBlock :: int

record State =
  messageQueue :: "(string \<times> Message) list"
  lastScannedL1Block :: int
  lastScannedL2Block :: int

record Metrics =
  nodeConnectionFailures :: int
  messagesSent :: int
  messagesRelayed :: int
  pendingMessages :: int

record Service =
  options :: Options
  state :: State
  metrics :: Metrics

text \<open>
  \<open>messageQueue\<close> is a JavaScript \<open>Map\<close>: entries in insertion order;
  \<open>Map.set\<close> replaces the value of a key that is present, in place, and appends a new key
  (\<open>AList.update\<close>); \<open>Map.get\<close> is \<open>map_of\<close>.
\<close>

definition set_messageQueue :: "(string \<times> Message) list \<Rightarrow> Service \<Rightarrow> Service" where
  "set_messageQueue q s = s\<lparr>state := (state s)\<lparr>messageQueue := q\<rparr>\<rparr>"

definition set_lastScannedL1Block :: "int \<Rightarrow> Service \<Rightarrow> Service" where
  "set_lastScannedL1Block b s = s\<lparr>state := (state s)\<lparr>lastScannedL1Block := b\<rparr>\<rparr>"

definition set_lastScannedL2Block :: "int \<Rightarrow> Service \<Rightarrow> Service" where
  "set_lastScannedL2Block b s = s\<lparr>state := (state s)\<lparr>lastScannedL2Block := b\<rparr>\<rparr>"

definition messagesSent_inc :: "Service \<Rightarrow> Service" where
  "messagesSent_inc s = s\<lparr>metrics := (metrics s)\<lparr>messagesSent := messagesSent (metrics s) + 1\<rparr>\<rparr>"

definition messagesRelayed_inc :: "Service \<Rightarrow> Service" where
  "messagesRelayed_inc s =
     s\<lparr>metrics := (metrics s)\<lparr>messagesRelayed := messagesRelayed (metrics s) + 1\<rparr>\<rparr>"

definition pendingMessages_dec :: "Service \<Rightarrow> Service" where
  "pendingMessages_dec s =
     s\<lparr>metrics := (metrics s)\<lparr>pendingMessages := pendingMessages (metrics s) - 1\<rparr>\<rparr>"

text \<open>\<open>{...msg, timestamp, isRelayed: false}\<close>\<close>

definition pendingMessage :: "SentMessage \<Rightarrow> int \<Rightarrow> Message" where
  "pendingMessage msg ts = SentMessage.extend msg (Message.fields ts False)"

text \<open>
  The body of the loop \<open>for (const msg of ...)\<close>, the same text in
  \<open>indexHistoricalMessages\<close> and in \<open>indexNewMessages\<close>, after \<open>getBlock\<close> has answered.
\<close>

definition queueMessage :: "SentMessage \<Rightarrow> int \<Rightarrow> Service \<Rightarrow> Service" where
  "queueMessage msg ts s =
     messagesSent_inc
       (set_messageQueue
          (AList.update (messageHash msg) (pendingMessage msg ts) (messageQueue (state s))) s)"

fun addToQueue :: "L1Provider \<Rightarrow> SentMessage list \<Rightarrow> Service \<Rightarrow> (error + unit) \<times> Service" where
  "addToQueue l1 [] s = (Inr (), s)"
| "addToQueue l1 (msg # msgs) s =
     (case l1_getBlock l1 (blockNumber msg) of
        Inl e \<Rightarrow> (Inl e, s)
      | Inr None \<Rightarrow> (Inl TypeError, s)
      | Inr (Some ts) \<Rightarrow> addToQueue l1 msgs (queueMessage msg ts s))"

text \<open>The loop of \<open>indexHistoricalMessages\<close> over \<open>relayedHashes\<close>.\<close>

fun markHistorical :: "string list \<Rightarrow> Service \<Rightarrow> Service" where
  "markHistorical [] s = s"
| "markHistorical (h # hs) s =
     markHistorical hs
       (case map_of (messageQueue (state s)) h of
          Some m \<Rightarrow>
            messagesRelayed_inc
              (set_messageQueue (AList.update h (m\<lparr>isRelayed := True\<rparr>) (messageQueue (state s))) s)
        | None \<Rightarrow> s)"

definition indexHistoricalMessages ::
  "ethers \<Rightarrow> L1Provider \<Rightarrow> L2Provider \<Rightarrow> Service \<Rightarrow> (error + unit) \<times> Service" where
  "indexHistoricalMessages lib l1 l2 s =
     (case l1_getBlockNumber l1 of
        Inl e \<Rightarrow> (Inl e, s)
      | Inr latestL1Block \<Rightarrow>
     (case l2_getBlockNumber l2 of
        Inl e \<Rightarrow> (Inl e, s)
      | Inr latestL2Block \<Rightarrow>
     (case getSentMessageEvents lib l1 (l1StartBlock (options s)) latestL1Block of
        Inl e \<Rightarrow> (Inl e, s)
      | Inr sentMessages \<Rightarrow>
     (case addToQueue l1 sentMessages s of
        (Inl e, s1) \<Rightarrow> (Inl e, s1)
      | (Inr _, s1) \<Rightarrow>
     (case getRelayedMessageEvents l2 (l2StartBlock (options s)) latestL2Block of
        Inl e \<Rightarrow> (Inl e, set_lastScannedL1Block latestL1Block s1)
      | Inr relayedHashes \<Rightarrow>
          (Inr (),
           set_lastScannedL2Block latestL2Block
             (markHistorical relayedHashes (set_lastScannedL1Block latestL1Block s1))))))))"

text \<open>
  \<open>init\<close>: the assignments before the historical pass, then the pass. The two calls of
  \<open>waitForProvider\<close> (a library function that polls \<open>getBlockNumber\<close> until it
  answers) come first in the source and are not part of this definition: \<open>init\<close> here
  is \<open>init\<close> from the moment both providers have answered once.
\<close>

definition init_assign :: "Options \<Rightarrow> Service" where
  "init_assign opts =
     \<lparr>options = opts,
      state = \<lparr>messageQueue = [], lastScannedL1Block = l1StartBlock opts,
               lastScannedL2Block = l2StartBlock opts\<rparr>,
      metrics = \<lparr>nodeConnectionFailures = 0, messagesSent = 0, messagesRelayed = 0,
                 pendingMessages = 0\<rparr>\<rparr>"

definition init :: "ethers \<Rightarrow> L1Provider \<Rightarrow> L2Provider \<Rightarrow> Options \<Rightarrow> (error + unit) \<times> Service" where
  "init lib l1 l2 opts = indexHistoricalMessages lib l1 l2 (init_assign opts)"

definition indexNewMessages :: "ethers \<Rightarrow> L1Provider \<Rightarrow> Service \<Rightarrow> (error + unit) \<times> Service" where
  "indexNewMessages lib l1 s =
     (case l1_getBlockNumber l1 of
        Inl e \<Rightarrow> (Inl e, s)
      | Inr latestL1Block \<Rightarrow>
          (if latestL1Block > lastScannedL1Block (state s) then
             (case getSentMessageEvents lib l1 (lastScannedL1Block (state s) + 1) latestL1Block of
                Inl e \<Rightarrow> (Inl e, s)
              | Inr newMessages \<Rightarrow>
                  (case addToQueue l1 newMessages s of
                     (Inl e, s1) \<Rightarrow> (Inl e, s1)
                   | (Inr _, s1) \<Rightarrow> (Inr (), set_lastScannedL1Block latestL1Block s1)))
           else (Inr (), s)))"

text \<open>The loop of \<open>checkRelayedMessages\<close> over \<open>newRelayedHashes\<close>.\<close>

fun markRelayed :: "string list \<Rightarrow> Service \<Rightarrow> Service" where
  "markRelayed [] s = s"
| "markRelayed (h # hs) s =
     markRelayed hs
       (case map_of (messageQueue (state s)) h of
          Some m \<Rightarrow>
            (if \<not> isRelayed m then
               pendingMessages_dec
                 (messagesRelayed_inc
                    (set_messageQueue
                       (AList.update h (m\<lparr>isRelayed := True\<rparr>) (messageQueue (state s))) s))
             else s)
        | None \<Rightarrow> s)"

definition checkRelayedMessages :: "L2Provider \<Rightarrow> Service \<Rightarrow> (error + unit) \<times> Service" where
  "checkRelayedMessages l2 s =
     (case l2_getBlockNumber l2 of
        Inl e \<Rightarrow> (Inl e, s)
      | Inr latestL2Block \<Rightarrow>
          (if latestL2Block > lastScannedL2Block (state s) then
             (case getRelayedMessageEvents l2 (lastScannedL2Block (state s) + 1) latestL2Block of
                Inl e \<Rightarrow> (Inl e, s)
              | Inr newRelayedHashes \<Rightarrow>
                  (Inr (), set_lastScannedL2Block latestL2Block (markRelayed newRelayedHashes s)))
           else (Inr (), s)))"

text \<open>
  \<open>relayPendingMessages\<close>: the loop over the entries of the map, in their order. The
  result carries the entries as the loop leaves them, the metrics, and the hashes of the
  lines \<open>Attempting to relay message ...\<close> in the order they are printed.
\<close>

definition relayOf :: "ethers \<Rightarrow> L2Provider \<Rightarrow> Message \<Rightarrow> error + Receipt" where
  "relayOf lib l2 m =
     relayL1Message lib l2 (sender m) (target m) (message m) (Str (messageNonce m))
       (msg_value m) (gasLimit m)"

fun relayLoop ::
  "ethers \<Rightarrow> L2Provider \<Rightarrow> (string \<times> Message) list \<Rightarrow> Metrics
     \<Rightarrow> (string \<times> Message) list \<times> Metrics \<times> string list" where
  "relayLoop lib l2 [] mt = ([], mt, [])"
| "relayLoop lib l2 ((h, m) # es) mt =
     (if \<not> isRelayed m then
        (case relayOf lib l2 m of
           Inr relayReceipt \<Rightarrow>
             (case relayLoop lib l2 es
                     (mt\<lparr>messagesRelayed := messagesRelayed mt + 1,
                         pendingMessages := pendingMessages mt - 1\<rparr>) of
                (es', mt', attempts) \<Rightarrow> ((h, m\<lparr>isRelayed := True\<rparr>) # es', mt', h # attempts))
         | Inl e \<Rightarrow>
             (case relayLoop lib l2 es mt of
                (es', mt', attempts) \<Rightarrow> ((h, m) # es', mt', h # attempts)))
      else
        (case relayLoop lib l2 es mt of
           (es', mt', attempts) \<Rightarrow> ((h, m) # es', mt', attempts)))"

definition relayPendingMessages :: "ethers \<Rightarrow> L2Provider \<Rightarrow> Service \<Rightarrow> Service \<times> string list" where
  "relayPendingMessages lib l2 s =
     (case relayLoop lib l2 (messageQueue (state s)) (metrics s) of
        (es, mt, attempts) \<Rightarrow> ((set_messageQueue es s)\<lparr>metrics := mt\<rparr>, attempts))"

definition pendingCount :: "Service \<Rightarrow> int" where
  "pendingCount s = int (length (filter (\<lambda>(h, m). \<not> isRelayed m) (messageQueue (state s))))"

definition updateMetrics :: "Service \<Rightarrow> Service" where
  "updateMetrics s = s\<lparr>metrics := (metrics s)\<lparr>pendingMessages := pendingCount s\<rparr>\<rparr>"

text \<open>\<open>main\<close>, one poll cycle, up to the sleep.\<close>

definition main :: "ethers \<Rightarrow> L1Provider \<Rightarrow> L2Provider \<Rightarrow> Service \<Rightarrow> (error + unit) \<times> Service" where
  "main lib l1 l2 s =
     (case indexNewMessages lib l1 s of
        (Inl e, s1) \<Rightarrow> (Inl e, s1)
      | (Inr _, s1) \<Rightarrow>
     (case checkRelayedMessages l2 s1 of
        (Inl e, s2) \<Rightarrow> (Inl e, s2)
      | (Inr _, s2) \<Rightarrow> (Inr (), updateMetrics (fst (relayPendingMessages lib l2 s2)))))"

text \<open>
  Modelled from the spec: the loop that runs \<open>main\<close>. The service extends
  \<open>BaseServiceV2\<close> with \<open>loop: true\<close> and is started by \<open>service.run()\<close>; the
  base class, of the package \<open>@eth-optimism/common-ts\<close>, is not among the source files.
  By the specification one cycle runs to completion before the next begins, and a read
  failure is logged, increments a failure counter and aborts the current cycle, the next
  cycle starting again from the cursors. So one turn of the loop runs \<open>main\<close>, keeps the
  service as \<open>main\<close> leaves it, and counts a cycle that raised in the framework's
  counter of unhandled errors.
\<close>

record Runner =
  runner_service :: Service
  unhandledErrors :: int

definition doLoop :: "ethers \<Rightarrow> L1Provider \<Rightarrow> L2Provider \<Rightarrow> Runner \<Rightarrow> Runner" where
  "doLoop lib l1 l2 r =
     (case main lib l1 l2 (runner_service r) of
        (Inl e, s) \<Rightarrow> \<lparr>runner_service = s, unhandledErrors = unhandledErrors r + 1\<rparr>
      | (Inr _, s) \<Rightarrow> \<lparr>runner_service = s, unhandledErrors = unhandledErrors r\<rparr>)"

text \<open>The two routes: the JSON body, the HTTP status, and the service as the handler leaves it.\<close>

record Healthz =
  hz_status :: nat
  hz_ok :: bool
  hz_synced :: bool
  hz_pendingMessages :: int

definition healthz :: "Service \<Rightarrow> Healthz \<times> Service" where
  "healthz s =
     (\<lparr>hz_status = 200, hz_ok = True, hz_synced = True,
       hz_pendingMessages = int (length (messageQueue (state s)))\<rparr>, s)"

definition messages_route :: "Service \<Rightarrow> (nat \<times> Message list) \<times> Service" where
  "messages_route s = ((200, map snd (messageQueue (state s))), s)"

section \<open>Concrete inputs\<close>

text \<open>
  Closed instances of the parameters, for evaluating the model. \<open>stub_ethers\<close> accepts
  every address string and hashes by the identity. The scenario is the one of the
  specification: a send event with nonce 1, sender \<open>0xaa\<close>, target \<open>0xbb\<close>, gas limit
  200000 and payload \<open>0x1234\<close>, with no extension event.
\<close>

definition stub_ethers :: ethers where
  "stub_ethers =
     \<lparr>keccak256 = id, getAddress = Inr,
      from_nondecimal = (\<lambda>s. Inl (InvalidArgument ''invalid BigNumber string''))\<rparr>"

definition addr_aa :: string where
  "addr_aa = ''0x00000000000000000000000000000000000000aa''"

definition addr_bb :: string where
  "addr_bb = ''0x00000000000000000000000000000000000000bb''"

definition scenario_event :: "int \<Rightarrow> SentMessageEvent" where
  "scenario_event b =
     \<lparr>args_target = addr_bb, args_sender = addr_aa, args_message = ''0x1234'',
      args_messageNonce = 1, args_gasLimit = 200000, ev_blockNumber = b,
      ev_transactionHash = ''0x01''\<rparr>"

text \<open>An L1 node at height \<open>head\<close> whose only send event is in block \<open>b\<close>.\<close>

definition scenario_l1 :: "int \<Rightarrow> int \<Rightarrow> L1Provider" where
  "scenario_l1 head b =
     \<lparr>l1_getBlockNumber = Inr head,
      l1_querySentMessage = (\<lambda>f t. Inr (if f \<le> b \<and> b \<le> t then [scenario_event b] else [])),
      l1_queryExtension = (\<lambda>f t. Inr []),
      l1_getBlock = (\<lambda>n. Inr (Some 1700000000))\<rparr>"

text \<open>The same node, with the given \<open>SentMessageExtension1\<close> events in every range.\<close>

definition extended_l1 :: "int \<Rightarrow> int \<Rightarrow> ExtensionEvent list \<Rightarrow> L1Provider" where
  "extended_l1 head b exts = (scenario_l1 head b)\<lparr>l1_queryExtension := (\<lambda>f t. Inr exts)\<rparr>"

definition ext_aa :: ExtensionEvent where
  "ext_aa = \<lparr>ext_sender = addr_aa, ext_value = 5, ext_transactionHash = ''0x01''\<rparr>"

definition ext_bb :: ExtensionEvent where
  "ext_bb = \<lparr>ext_sender = addr_bb, ext_value = 7, ext_transactionHash = ''0x01''\<rparr>"

text \<open>The identity hash of the scenario's message when its value is \<open>v\<close>.\<close>

definition scenario_hash :: "int \<Rightarrow> string" where
  "scenario_hash v =
     keccak256 stub_ethers
       (''0x'' @ sighash stub_ethers @ hex_word 1 @ hex_word (hex_val (drop 2 addr_aa)) @
        hex_word (hex_val (drop 2 addr_bb)) @ hex_word (nat v) @ hex_word 200000 @
        hex_word 192 @ hex_word 2 @ ''1234'' @ replicate 60 CHR ''0'')"

definition scenario_sent :: "int \<Rightarrow> int \<Rightarrow> SentMessage" where
  "scenario_sent b v =
     \<lparr>messageHash = scenario_hash v, sender = addr_aa, target = addr_bb, message = ''0x1234'',
      messageNonce = ''1'', gasLimit = 200000, msg_value = v, blockNumber = b,
      transactionHash = ''0x01''\<rparr>"

text \<open>A service that holds the scenario's message with the given status.\<close>

definition scenario_service :: "bool \<Rightarrow> Service" where
  "scenario_service relayed =
     \<lparr>options = \<lparr>l1StartBlock = 100, l2StartBlock = 100\<rparr>,
      state = \<lparr>messageQueue =
                 [(scenario_hash 0,
                   (pendingMessage (scenario_sent 105 0) 1700000000)\<lparr>isRelayed := relayed\<rparr>)],
               lastScannedL1Block = 105, lastScannedL2Block = 100\<rparr>,
      metrics = \<lparr>nodeConnectionFailures = 0, messagesSent = 1,
                 messagesRelayed = (if relayed then 1 else 0),
                 pendingMessages = (if relayed then 0 else 1)\<rparr>\<rparr>"

text \<open>Nodes at a given height with no events.\<close>

definition quiet_l1 :: "int \<Rightarrow> L1Provider" where
  "quiet_l1 head =
     \<lparr>l1_getBlockNumber = Inr head, l1_querySentMessage = (\<lambda>f t. Inr []),
      l1_queryExtension = (\<lambda>f t. Inr []), l1_getBlock = (\<lambda>n. Inr None)\<rparr>"

definition quiet_l2 :: "int \<Rightarrow> L2Provider" where
  "quiet_l2 head =
     \<lparr>l2_getBlockNumber = Inr head, l2_queryRelayedMessage = (\<lambda>f t. Inr []),
      l2_setBalance = (\<lambda>v. Inr ()),
      l2_sendTransaction = (\<lambda>p. Inl (ProviderError ''execution reverted'')),
      l2_getTransactionReceipt = (\<lambda>h. Inr None)\<rparr>"

text \<open>Nodes whose every request is rejected.\<close>

definition down_l1 :: L1Provider where
  "down_l1 =
     \<lparr>l1_getBlockNumber = Inl (ProviderError ''timeout''),
      l1_querySentMessage = (\<lambda>f t. Inl (ProviderError ''timeout'')),
      l1_queryExtension = (\<lambda>f t. Inl (ProviderError ''timeout'')),
      l1_getBlock = (\<lambda>n. Inl (ProviderError ''timeout''))\<rparr>"

definition down_l2 :: L2Provider where
  "down_l2 =
     \<lparr>l2_getBlockNumber = Inl (ProviderError ''timeout''),
      l2_queryRelayedMessage = (\<lambda>f t. Inl (ProviderError ''timeout'')),
      l2_setBalance = (\<lambda>v. Inl (ProviderError ''timeout'')),
      l2_sendTransaction = (\<lambda>p. Inl (ProviderError ''timeout'')),
      l2_getTransactionReceipt = (\<lambda>h. Inl (ProviderError ''timeout''))\<rparr>"

text \<open>An L2 node at a given height whose confirmation scan returns the given hashes.\<close>

definition confirming_l2 :: "int \<Rightarrow> string list \<Rightarrow> L2Provider" where
  "confirming_l2 head hashes = (quiet_l2 head)\<lparr>l2_queryRelayedMessage := (\<lambda>f t. Inr hashes)\<rparr>"

text \<open>
  An L2 node on which a relay that carries no value reverts and a relay that carries
  value is mined in block 51.
\<close>

definition relay_l2 :: L2Provider where
  "relay_l2 =
     \<lparr>l2_getBlockNumber = Inr 51, l2_queryRelayedMessage = (\<lambda>f t. Inr []),
      l2_setBalance = (\<lambda>v. Inr ()),
      l2_sendTransaction =
        (\<lambda>p. case tx_value p of
                None \<Rightarrow> Inl (ProviderError ''execution reverted'')
              | Some v \<Rightarrow> Inr ''0x02''),
      l2_getTransactionReceipt = (\<lambda>h. Inr (Some \<lparr>receipt_blockNumber = 51\<rparr>))\<rparr>"

text \<open>A service that holds two pending messages: the scenario's, with values 0 and 5.\<close>

definition two_pending :: Service where
  "two_pending =
     \<lparr>options = \<lparr>l1StartBlock = 100, l2StartBlock = 100\<rparr>,
      state = \<lparr>messageQueue =
                 [(scenario_hash 0, pendingMessage (scenario_sent 105 0) 1700000000),
                  (scenario_hash 5, pendingMessage (scenario_sent 105 5) 1700000000)],
               lastScannedL1Block = 105, lastScannedL2Block = 100\<rparr>,
      metrics = \<lparr>nodeConnectionFailures = 0, messagesSent = 2, messagesRelayed = 0,
                 pendingMessages = 2\<rparr>\<rparr>"

section \<open>Lemmas on decimal strings\<close>

lemma is_digit_digit_char: "d < 10 \<Longrightarrow> is_digit (digit_char d)"
  by (simp add: is_digit_def digit_char_def)

lemma digit_val_digit_char: "d < 10 \<Longrightarrow> digit_val (digit_char d) = d"
  by (simp add: digit_val_def digit_char_def)

lemma dec_nat_digits: "list_all is_digit (dec_nat n)"
proof (induction n rule: dec_nat.induct)
  case (1 n)
  show ?case
  proof (cases "n < 10")
    case True
    then show ?thesis by (simp add: dec_nat.simps [of n] is_digit_digit_char)
  next
    case False
    with "1" show ?thesis by (simp add: dec_nat.simps [of n] is_digit_digit_char)
  qed
qed

lemma dec_nat_nonempty: "dec_nat n \<noteq> []"
  by (subst dec_nat.simps) simp

lemma dec_val_snoc: "dec_val (s @ [c]) = 10 * dec_val s + digit_val c"
  by (simp add: dec_val_def)

lemma dec_val_dec_nat: "dec_val (dec_nat n) = n"
proof (induction n rule: dec_nat.induct)
  case (1 n)
  show ?case
  proof (cases "n < 10")
    case True
    then show ?thesis by (simp add: dec_nat.simps [of n] dec_val_def digit_val_digit_char)
  next
    case False
    with "1" show ?thesis
      by (simp add: dec_nat.simps [of n] dec_val_snoc digit_val_digit_char)
  qed
qed

lemma dec_nat_no_minus: "dec_nat n \<noteq> CHR ''-'' # r"
proof
  assume h: "dec_nat n = CHR ''-'' # r"
  have "list_all is_digit (dec_nat n)" by (rule dec_nat_digits)
  with h show False by (simp add: is_digit_def)
qed

lemma BigNumber_from_toString: "BigNumber_from lib (Str (BigNumber_toString n)) = Inr n"
proof (cases "n < 0")
  case True
  then show ?thesis
    by (simp add: BigNumber_from_def BigNumber_toString_def dec_nat_digits dec_nat_nonempty
        dec_val_dec_nat)
next
  case False
  have "BigNumber_from lib (Str (dec_nat (nat n))) = Inr (int (dec_val (dec_nat (nat n))))"
    using dec_nat_no_minus [of "nat n"] dec_nat_nonempty [of "nat n"] dec_nat_digits [of "nat n"]
    by (auto simp: BigNumber_from_def split: list.splits char.splits bool.splits)
  with False show ?thesis
    by (simp add: BigNumber_toString_def dec_val_dec_nat)
qed

section \<open>Lemmas on the result type and on \<open>Promise.all\<close>\<close>

lemma bind_Inl [simp]: "bind (Inl e) f = Inl e"
  by (simp add: bind_def)

lemma bind_Inr [simp]: "bind (Inr x) f = f x"
  by (simp add: bind_def)

lemma Promise_all_isl: "\<exists>r \<in> set rs. isl r \<Longrightarrow> isl (Promise_all rs)"
proof (induction rs)
  case Nil
  then show ?case by simp
next
  case (Cons r rs)
  show ?case
  proof (cases r)
    case (Inl e)
    then show ?thesis by simp
  next
    case (Inr x)
    with Cons.prems have "\<exists>r \<in> set rs. isl r" by auto
    then have "isl (Promise_all rs)" by (rule Cons.IH)
    with Inr show ?thesis by (cases "Promise_all rs") auto
  qed
qed

lemma Promise_all_Inr: "Promise_all rs = Inr xs \<Longrightarrow> rs = map Inr xs"
  by (induction rs arbitrary: xs) (auto split: sum.splits)

lemma Promise_all_map_Inr: "Promise_all (map Inr xs) = Inr xs"
  by (induction xs) auto

lemma Promise_all_nth:
  assumes "Promise_all (map f xs) = Inr ys"
  shows "length ys = length xs \<and> (\<forall>i < length xs. f (xs ! i) = Inr (ys ! i))"
proof -
  from assms have eq: "map f xs = map Inr ys" by (rule Promise_all_Inr)
  then have len: "length xs = length ys" by (metis length_map)
  have "\<forall>i < length xs. f (xs ! i) = Inr (ys ! i)"
  proof (intro allI impI)
    fix i assume i: "i < length xs"
    have "f (xs ! i) = map f xs ! i" using i by simp
    also have "\<dots> = map Inr ys ! i" by (simp only: eq)
    also have "\<dots> = Inr (ys ! i)" using i len by simp
    finally show "f (xs ! i) = Inr (ys ! i)" .
  qed
  with len show ?thesis by simp
qed

lemma encode_uint256_valid:
  "BigNumber_from lib v = Inr n \<Longrightarrow> 0 \<le> n \<Longrightarrow> n < 2 ^ 256 \<Longrightarrow>
   encode_uint256 lib v = Inr (hex_word (nat n))"
  by (simp add: encode_uint256_def)

lemma encode_uint256_out_of_bounds:
  "BigNumber_from lib v = Inr n \<Longrightarrow> n < 0 \<or> 2 ^ 256 \<le> n \<Longrightarrow>
   encode_uint256 lib v = Inl (InvalidArgument ''value out-of-bounds'')"
  by (auto simp add: encode_uint256_def)

lemma hash_valid:
  assumes "BigNumber_from lib nonce = Inr n" "0 \<le> n" "n < 2 ^ 256"
    and "getAddress lib sa = Inr a" "getAddress lib ta = Inr b"
    and "0 \<le> v" "v < 2 ^ 256"
    and "BigNumber_from lib gl = Inr g" "0 \<le> g" "g < 2 ^ 256"
    and "arrayify dat = Inr h"
  shows "encodeCrossDomainMessageV1 lib nonce sa ta v gl dat =
           Inr (''0x'' @ sighash lib @ hex_word (nat n) @ hex_word (hex_val (drop 2 a)) @
                hex_word (hex_val (drop 2 b)) @ hex_word (nat v) @ hex_word (nat g) @
                hex_word 192 @ hex_word (length h div 2) @ h @
                replicate ((64 - length h mod 64) mod 64) CHR ''0'')"
proof -
  have v: "encode_uint256 lib (Big v) = Inr (hex_word (nat v))"
    using assms(6,7) by (simp add: encode_uint256_def BigNumber_from_def)
  show ?thesis
    unfolding encodeCrossDomainMessageV1_def encodeFunctionData_relayMessage_def
    using assms v
    by (simp add: encode_uint256_valid encode_address_def encode_bytes_def)
qed

lemma sentMessageOfEvent_mismatch:
  assumes "find (\<lambda>ext. ext_transactionHash ext = ev_transactionHash event) exts = Some x"
    and "toLowerCase (ext_sender x) \<noteq> toLowerCase (args_sender event)"
  shows "sentMessageOfEvent lib exts event = Inl (SenderMismatch (ev_transactionHash event))"
  using assms by (simp add: sentMessageOfEvent_def)

lemma sentMessageOfEvent_no_extension:
  assumes "find (\<lambda>ext. ext_transactionHash ext = ev_transactionHash event) exts = None"
    and "sentMessageOfEvent lib exts event = Inr msg"
  shows "msg_value msg = 0 \<and>
         hashCrossDomainMessageV1 lib (Big (args_messageNonce event)) (args_sender event)
           (args_target event) 0 (Big (args_gasLimit event)) (args_message event)
           = Inr (messageHash msg)"
  using assms
  by (auto simp add: sentMessageOfEvent_def bind_def split: sum.splits)

lemma getSentMessageEvents_mismatch:
  assumes "l1_querySentMessage l1 f t = Inr sent" "l1_queryExtension l1 f t = Inr exts"
    and "event \<in> set sent"
    and "find (\<lambda>ext. ext_transactionHash ext = ev_transactionHash event) exts = Some x"
    and "toLowerCase (ext_sender x) \<noteq> toLowerCase (args_sender event)"
  shows "isl (getSentMessageEvents lib l1 f t)"
proof -
  have "isl (sentMessageOfEvent lib exts event)"
    using assms(4,5) by (simp add: sentMessageOfEvent_mismatch)
  with assms(3) have "\<exists>r \<in> set (map (sentMessageOfEvent lib exts) sent). isl r" by auto
  then have "isl (Promise_all (map (sentMessageOfEvent lib exts) sent))"
    by (rule Promise_all_isl)
  with assms(1,2) show ?thesis by (simp add: getSentMessageEvents_def)
qed

lemma indexNewMessages_scan_fails:
  assumes "l1_getBlockNumber l1 = Inr latest" "latest > lastScannedL1Block (state s)"
    and "getSentMessageEvents lib l1 (lastScannedL1Block (state s) + 1) latest = Inl e"
  shows "indexNewMessages lib l1 s = (Inl e, s)"
  using assms by (simp add: indexNewMessages_def)

lemma indexHistoricalMessages_scan_fails:
  assumes "l1_getBlockNumber l1 = Inr latest" "l2_getBlockNumber l2 = Inr latest2"
    and "getSentMessageEvents lib l1 (l1StartBlock (options s)) latest = Inl e"
  shows "indexHistoricalMessages lib l1 l2 s = (Inl e, s)"
  using assms by (simp add: indexHistoricalMessages_def)

section \<open>Lemmas on the message queue\<close>

lemmas service_defs =
  set_messageQueue_def set_lastScannedL1Block_def set_lastScannedL2Block_def
  messagesSent_inc_def messagesRelayed_inc_def pendingMessages_dec_def

lemma pendingMessage_sel [simp]:
  "isRelayed (pendingMessage msg ts) = False"
  "timestamp (pendingMessage msg ts) = ts"
  "messageHash (pendingMessage msg ts) = messageHash msg"
  "sender (pendingMessage msg ts) = sender msg"
  "target (pendingMessage msg ts) = target msg"
  "message (pendingMessage msg ts) = message msg"
  "messageNonce (pendingMessage msg ts) = messageNonce msg"
  "gasLimit (pendingMessage msg ts) = gasLimit msg"
  "msg_value (pendingMessage msg ts) = msg_value msg"
  "blockNumber (pendingMessage msg ts) = blockNumber msg"
  "transactionHash (pendingMessage msg ts) = transactionHash msg"
  by (simp_all add: pendingMessage_def SentMessage.defs Message.defs)

text \<open>queueMessage\<close>

lemma queueMessage_queue:
  "messageQueue (state (queueMessage msg ts s)) =
     AList.update (messageHash msg) (pendingMessage msg ts) (messageQueue (state s))"
  by (simp add: queueMessage_def service_defs)

lemma queueMessage_cursors:
  "lastScannedL1Block (state (queueMessage msg ts s)) = lastScannedL1Block (state s)"
  "lastScannedL2Block (state (queueMessage msg ts s)) = lastScannedL2Block (state s)"
  "options (queueMessage msg ts s) = options s"
  "nodeConnectionFailures (metrics (queueMessage msg ts s)) = nodeConnectionFailures (metrics s)"
  by (simp_all add: queueMessage_def service_defs)

lemma queueMessage_lookup:
  "map_of (messageQueue (state (queueMessage msg ts s))) k =
     (if k = messageHash msg then Some (pendingMessage msg ts)
      else map_of (messageQueue (state s)) k)"
  by (simp add: queueMessage_queue update_conv')

text \<open>addToQueue\<close>

lemma addToQueue_cursors:
  "lastScannedL1Block (state (snd (addToQueue l1 msgs s))) = lastScannedL1Block (state s) \<and>
   lastScannedL2Block (state (snd (addToQueue l1 msgs s))) = lastScannedL2Block (state s) \<and>
   options (snd (addToQueue l1 msgs s)) = options s \<and>
   nodeConnectionFailures (metrics (snd (addToQueue l1 msgs s))) = nodeConnectionFailures (metrics s)"
proof (induction msgs arbitrary: s)
  case Nil
  then show ?case by simp
next
  case (Cons msg msgs)
  show ?case
  proof (cases "l1_getBlock l1 (blockNumber msg)")
    case (Inl e)
    then show ?thesis by simp
  next
    case (Inr t)
    then show ?thesis
      by (cases t) (simp_all add: Cons.IH queueMessage_cursors)
  qed
qed

lemma addToQueue_other_keys:
  "k \<notin> messageHash ` set msgs \<Longrightarrow>
   map_of (messageQueue (state (snd (addToQueue l1 msgs s)))) k = map_of (messageQueue (state s)) k"
proof (induction msgs arbitrary: s)
  case Nil
  then show ?case by simp
next
  case (Cons msg msgs)
  show ?case
  proof (cases "l1_getBlock l1 (blockNumber msg)")
    case (Inl e)
    then show ?thesis by simp
  next
    case (Inr t)
    show ?thesis
    proof (cases t)
      case None
      with Inr show ?thesis by simp
    next
      case (Some ts)
      from Cons.prems have k: "k \<noteq> messageHash msg" "k \<notin> messageHash ` set msgs" by auto
      from Inr Some have "snd (addToQueue l1 (msg # msgs) s) = snd (addToQueue l1 msgs (queueMessage msg ts s))"
        by simp
      with Cons.IH [OF k(2)] k(1) show ?thesis by (simp add: queueMessage_lookup)
    qed
  qed
qed

lemma addToQueue_pending:
  "fst (addToQueue l1 msgs s) = Inr () \<Longrightarrow> msg \<in> set msgs \<Longrightarrow>
   \<exists>m. map_of (messageQueue (state (snd (addToQueue l1 msgs s)))) (messageHash msg) = Some m \<and>
       \<not> isRelayed m"
proof (induction msgs arbitrary: s msg)
  case Nil
  then show ?case by simp
next
  case (Cons a msgs)
  show ?case
  proof (cases "l1_getBlock l1 (blockNumber a)")
    case (Inl e)
    with Cons.prems show ?thesis by simp
  next
    case (Inr t)
    show ?thesis
    proof (cases t)
      case None
      with Inr Cons.prems show ?thesis by simp
    next
      case (Some ts)
      let ?s1 = "queueMessage a ts s"
      from Inr Some have step: "addToQueue l1 (a # msgs) s = addToQueue l1 msgs ?s1" by simp
      show ?thesis
      proof (cases "messageHash msg \<in> messageHash ` set msgs")
        case True
        then obtain msg' where m': "msg' \<in> set msgs" "messageHash msg' = messageHash msg" by auto
        from Cons.prems(1) step have "fst (addToQueue l1 msgs ?s1) = Inr ()" by simp
        from Cons.IH [OF this m'(1)] m'(2) step show ?thesis by simp
      next
        case False
        with Cons.prems(2) have eq: "msg = a" by auto
        have "map_of (messageQueue (state (snd (addToQueue l1 msgs ?s1)))) (messageHash msg)
              = map_of (messageQueue (state ?s1)) (messageHash msg)"
          using False by (rule addToQueue_other_keys)
        with eq step show ?thesis by (simp add: queueMessage_lookup)
      qed
    qed
  qed
qed

section \<open>The scenario, evaluated\<close>

lemma toString_1: "BigNumber_toString 1 = ''1''"
  by code_simp

lemma arrayify_1234: "arrayify ''0x1234'' = Inr ''1234''"
  by code_simp

lemma encode_bytes_1234:
  "encode_bytes ''0x1234'' = Inr (hex_word 2 @ ''1234'' @ replicate 60 CHR ''0'')"
proof -
  have a: "length ''1234'' div 2 = (2::nat)" by simp
  have b: "(64 - length ''1234'' mod 64) mod 64 = (60::nat)" by simp
  show ?thesis unfolding encode_bytes_def arrayify_1234 bind_Inr a b ..
qed

lemma scenario_hash_eq:
  "0 \<le> v \<Longrightarrow> v < 2 ^ 256 \<Longrightarrow>
   hashCrossDomainMessageV1 stub_ethers (Big 1) addr_aa addr_bb v (Big 200000) ''0x1234''
     = Inr (scenario_hash v)"
  by (simp add: hashCrossDomainMessageV1_def encodeCrossDomainMessageV1_def
      encodeFunctionData_relayMessage_def encode_uint256_def encode_address_def
      encode_bytes_1234 BigNumber_from_def scenario_hash_def stub_ethers_def)

lemma scenario_scan:
  "f \<le> b \<Longrightarrow> b \<le> t \<Longrightarrow>
   getSentMessageEvents stub_ethers (scenario_l1 head b) f t = Inr [scenario_sent b 0]"
  by (simp add: getSentMessageEvents_def scenario_l1_def sentMessageOfEvent_def
      scenario_event_def scenario_hash_eq BigNumber_toNumber_def toString_1 scenario_sent_def)

lemma lower_addr_neq: "toLowerCase addr_bb \<noteq> toLowerCase addr_aa"
  by code_simp

lemma lower_addr_aa: "toLowerCase (ext_sender ext_aa) = toLowerCase addr_aa"
  by (simp add: ext_aa_def)

lemma sentMessageOfEvent_fields:
  "sentMessageOfEvent lib exts event = Inr msg \<Longrightarrow>
   transactionHash msg = ev_transactionHash event \<and> blockNumber msg = ev_blockNumber event \<and>
   sender msg = args_sender event \<and> target msg = args_target event \<and>
   message msg = args_message event \<and>
   messageNonce msg = BigNumber_toString (args_messageNonce event) \<and>
   gasLimit msg = args_gasLimit event"
  by (auto simp add: sentMessageOfEvent_def bind_def BigNumber_toNumber_def
      split: sum.splits option.splits if_splits)

section \<open>Pairing of the two event streams\<close>

text \<open>
  Claim C4, as stated, fails. \<open>getSentMessageEvents\<close> looks up, for a primary event, the
  first extension event of the scanned list with the same transaction hash
  (\<open>extensionEvents.find\<close>) and compares only that one. Here the transaction of the
  scenario's send event has two extension events; the second has the sender \<open>0xbb\<close>, not
  the primary event's \<open>0xaa\<close>, and the scan returns a message record all the same.
\<close>

theorem pairing_any_match_counterexample:
  "ext_bb \<in> set [ext_aa, ext_bb] \<and>
   ext_transactionHash ext_bb = ev_transactionHash (scenario_event 105) \<and>
   ext_sender ext_bb \<noteq> args_sender (scenario_event 105) \<and>
   l1_querySentMessage (extended_l1 105 105 [ext_aa, ext_bb]) 101 105 = Inr [scenario_event 105] \<and>
   l1_queryExtension (extended_l1 105 105 [ext_aa, ext_bb]) 101 105 = Inr [ext_aa, ext_bb] \<and>
   getSentMessageEvents stub_ethers (extended_l1 105 105 [ext_aa, ext_bb]) 101 105
     = Inr [scenario_sent 105 5]"
proof -
  have neq: "addr_bb \<noteq> addr_aa" by (simp add: addr_aa_def addr_bb_def)
  have scan: "getSentMessageEvents stub_ethers (extended_l1 105 105 [ext_aa, ext_bb]) 101 105
     = Inr [scenario_sent 105 5]"
    by (simp add: getSentMessageEvents_def extended_l1_def scenario_l1_def sentMessageOfEvent_def
        scenario_event_def ext_aa_def ext_bb_def scenario_hash_eq BigNumber_toNumber_def
        toString_1 scenario_sent_def)
  show ?thesis
    using neq scan
    by (simp add: extended_l1_def scenario_l1_def ext_bb_def scenario_event_def)
qed

text \<open>
  Claim C4, amended: if, for some primary \<open>SentMessage\<close> event of the scanned range, the
  first \<open>SentMessageExtension1\<close> event with the same transaction hash has a sender that
  differs from the primary event's sender after \<open>toLowerCase\<close>, then
  \<open>getSentMessageEvents\<close> raises, and so do \<open>indexNewMessages\<close> and
  \<open>indexHistoricalMessages\<close> when they scan that range, leaving the service (the store,
  the cursors, the metrics) as it was: no record of the batch is added.
\<close>

theorem pairing_mismatch_fails_batch:
  assumes "l1_querySentMessage l1 f t = Inr sent"
    and "l1_queryExtension l1 f t = Inr exts"
    and "event \<in> set sent"
    and "find (\<lambda>ext. ext_transactionHash ext = ev_transactionHash event) exts = Some x"
    and "toLowerCase (ext_sender x) \<noteq> toLowerCase (args_sender event)"
  shows "isl (getSentMessageEvents lib l1 f t) \<and>
         (\<forall>s. l1_getBlockNumber l1 = Inr t \<longrightarrow> lastScannedL1Block (state s) + 1 = f \<longrightarrow> f \<le> t \<longrightarrow>
              (\<exists>e. indexNewMessages lib l1 s = (Inl e, s))) \<and>
         (\<forall>s l2 latestL2. l1_getBlockNumber l1 = Inr t \<longrightarrow> l2_getBlockNumber l2 = Inr latestL2 \<longrightarrow>
              l1StartBlock (options s) = f \<longrightarrow>
              (\<exists>e. indexHistoricalMessages lib l1 l2 s = (Inl e, s)))"
proof -
  have raised: "isl (getSentMessageEvents lib l1 f t)"
    using assms by (rule getSentMessageEvents_mismatch)
  then obtain e where e: "getSentMessageEvents lib l1 f t = Inl e"
    by (cases "getSentMessageEvents lib l1 f t") auto
  have new: "\<exists>e. indexNewMessages lib l1 s = (Inl e, s)"
    if "l1_getBlockNumber l1 = Inr t" "lastScannedL1Block (state s) + 1 = f" "f \<le> t" for s
  proof -
    from that have "t > lastScannedL1Block (state s)" by simp
    moreover from e that(2)
    have "getSentMessageEvents lib l1 (lastScannedL1Block (state s) + 1) t = Inl e" by simp
    ultimately have "indexNewMessages lib l1 s = (Inl e, s)"
      using that(1) by (simp add: indexNewMessages_scan_fails)
    then show ?thesis by blast
  qed
  have hist: "\<exists>e. indexHistoricalMessages lib l1 l2 s = (Inl e, s)"
    if "l1_getBlockNumber l1 = Inr t" "l2_getBlockNumber l2 = Inr latestL2"
      "l1StartBlock (options s) = f" for s l2 latestL2
  proof -
    from e that(3)
    have "getSentMessageEvents lib l1 (l1StartBlock (options s)) t = Inl e" by simp
    with that(1,2) have "indexHistoricalMessages lib l1 l2 s = (Inl e, s)"
      by (rule indexHistoricalMessages_scan_fails)
    then show ?thesis by blast
  qed
  from raised new hist show ?thesis by blast
qed

theorem pairing_mismatch_fails_batch_witness:
  "isl (getSentMessageEvents stub_ethers (extended_l1 105 105 [ext_bb, ext_aa]) 101 105) \<and>
   (\<exists>e. indexNewMessages stub_ethers (extended_l1 105 105 [ext_bb, ext_aa])
           (init_assign \<lparr>l1StartBlock = 100, l2StartBlock = 100\<rparr>)
         = (Inl e, init_assign \<lparr>l1StartBlock = 100, l2StartBlock = 100\<rparr>))"
proof -
  let ?l1 = "extended_l1 105 105 [ext_bb, ext_aa]"
  let ?s = "init_assign \<lparr>l1StartBlock = 100, l2StartBlock = 100\<rparr>"
  have a: "l1_querySentMessage ?l1 101 105 = Inr [scenario_event 105]"
    by (simp add: extended_l1_def scenario_l1_def)
  have b: "l1_queryExtension ?l1 101 105 = Inr [ext_bb, ext_aa]"
    by (simp add: extended_l1_def scenario_l1_def)
  have c: "scenario_event 105 \<in> set [scenario_event 105]" by simp
  have d: "find (\<lambda>ext. ext_transactionHash ext = ev_transactionHash (scenario_event 105))
             [ext_bb, ext_aa] = Some ext_bb"
    by (simp add: ext_bb_def scenario_event_def)
  have e: "toLowerCase (ext_sender ext_bb) \<noteq> toLowerCase (args_sender (scenario_event 105))"
    using lower_addr_neq by (simp add: ext_bb_def scenario_event_def)
  have h: "l1_getBlockNumber ?l1 = Inr 105"
    by (simp add: extended_l1_def scenario_l1_def)
  have c0: "lastScannedL1Block (state ?s) + 1 = 101" by (simp add: init_assign_def)
  from pairing_mismatch_fails_batch [OF a b c d e, of stub_ethers] h c0
  show ?thesis by simp
qed

section \<open>A send event without an extension event\<close>

text \<open>
  Claim C9: for every primary \<open>SentMessage\<close> event of a scanned range that has no
  \<open>SentMessageExtension1\<close> event with the same transaction hash, the record that
  \<open>getSentMessageEvents\<close> returns for it (the records come in the order of the primary
  events) has \<open>value = 0\<close>, and its \<open>messageHash\<close> is
  \<open>hashCrossDomainMessageV1\<close> of the event's fields with value 0.
\<close>

theorem missing_extension_value_zero:
  assumes "l1_querySentMessage l1 f t = Inr sent"
    and "l1_queryExtension l1 f t = Inr exts"
    and "getSentMessageEvents lib l1 f t = Inr msgs"
    and "i < length sent"
    and "\<forall>ext \<in> set exts. ext_transactionHash ext \<noteq> ev_transactionHash (sent ! i)"
  shows "length msgs = length sent \<and>
         transactionHash (msgs ! i) = ev_transactionHash (sent ! i) \<and>
         msg_value (msgs ! i) = 0 \<and>
         hashCrossDomainMessageV1 lib (Big (args_messageNonce (sent ! i)))
           (args_sender (sent ! i)) (args_target (sent ! i)) 0
           (Big (args_gasLimit (sent ! i))) (args_message (sent ! i))
         = Inr (messageHash (msgs ! i))"
proof -
  from assms(1,2,3)
  have all: "Promise_all (map (sentMessageOfEvent lib exts) sent) = Inr msgs"
    by (simp add: getSentMessageEvents_def)
  from Promise_all_nth [OF all] assms(4)
  have len: "length msgs = length sent"
    and one: "sentMessageOfEvent lib exts (sent ! i) = Inr (msgs ! i)" by auto
  from assms(5)
  have none: "find (\<lambda>ext. ext_transactionHash ext = ev_transactionHash (sent ! i)) exts = None"
    by (simp add: find_None_iff)
  from sentMessageOfEvent_no_extension [OF none one]
  have v: "msg_value (msgs ! i) = 0"
    and h: "hashCrossDomainMessageV1 lib (Big (args_messageNonce (sent ! i)))
           (args_sender (sent ! i)) (args_target (sent ! i)) 0
           (Big (args_gasLimit (sent ! i))) (args_message (sent ! i))
         = Inr (messageHash (msgs ! i))" by auto
  from sentMessageOfEvent_fields [OF one]
  have tx: "transactionHash (msgs ! i) = ev_transactionHash (sent ! i)" by simp
  from len tx v h show ?thesis by simp
qed

theorem missing_extension_value_zero_witness:
  "getSentMessageEvents stub_ethers (scenario_l1 105 105) 101 105 = Inr [scenario_sent 105 0] \<and>
   msg_value ([scenario_sent 105 0] ! 0) = 0 \<and>
   hashCrossDomainMessageV1 stub_ethers (Big 1) addr_aa addr_bb 0 (Big 200000) ''0x1234''
     = Inr (messageHash ([scenario_sent 105 0] ! 0))"
proof -
  let ?l1 = "scenario_l1 105 105"
  have a: "l1_querySentMessage ?l1 101 105 = Inr [scenario_event 105]"
    by (simp add: scenario_l1_def)
  have b: "l1_queryExtension ?l1 101 105 = Inr []" by (simp add: scenario_l1_def)
  have c: "getSentMessageEvents stub_ethers ?l1 101 105 = Inr [scenario_sent 105 0]"
    by (simp add: scenario_scan)
  have d: "(0::nat) < length [scenario_event 105]" by simp
  have e: "\<forall>ext \<in> set []. ext_transactionHash ext \<noteq> ev_transactionHash ([scenario_event 105] ! 0)"
    by simp
  from missing_extension_value_zero [OF a b c d e] c
  show ?thesis by (simp add: scenario_event_def)
qed

section \<open>The versioned nonce\<close>

lemma bit_240_of_version:
  "bit (n::int) 240 = bit (drop_bit 240 n) 0"
  by (simp add: bit_drop_bit_eq)

lemma or_exp_set: "bit (n::int) m \<Longrightarrow> or (2 ^ m) n = n"
  by (rule bit_eqI) (auto simp add: bit_or_iff bit_exp_iff)

lemma or_exp_clear: "\<not> bit (n::int) m \<Longrightarrow> or (2 ^ m) n = n + 2 ^ m"
proof -
  assume nb: "\<not> bit n m"
  have "2 ^ m + n = or (2 ^ m) n"
  proof (rule disjunctive_add)
    fix k
    show "\<not> bit (2 ^ m :: int) k \<or> \<not> bit n k"
      using nb by (auto simp add: bit_exp_iff)
  qed
  then show ?thesis by simp
qed

lemma or_version_set:
  assumes "drop_bit 240 (n::int) = 1"
  shows "or (2 ^ 240) n = n"
proof -
  from assms have "bit n 240" by (simp add: bit_240_of_version)
  then show ?thesis by (rule or_exp_set)
qed

lemma or_version_clear:
  assumes "drop_bit 240 (n::int) = 0"
  shows "or (2 ^ 240) n = n + 2 ^ 240"
proof -
  from assms have "\<not> bit n 240" by (simp add: bit_240_of_version)
  then show ?thesis by (rule or_exp_clear)
qed

lemma drop_bit_or_version:
  assumes "drop_bit 240 (n::int) = 0"
  shows "drop_bit 240 (or (2 ^ 240) n) = 1"
proof -
  have "drop_bit 240 (or (2 ^ 240) n) = or (drop_bit 240 (2 ^ 240)) (drop_bit 240 n)"
    by simp
  also have "drop_bit 240 (2 ^ 240 :: int) = 1"
    by (simp add: drop_bit_eq_div)
  finally show ?thesis using assms by simp
qed

lemma versionedNonce_Big:
  "versionedNonce lib (Big n) =
     (if n < 0 then Inl (NumericFault ''unbound-bitwise-result'') else Inr (or (2 ^ 240) n))"
  by (simp add: versionedNonce_def BigNumber_from_def MAX_SAFE_def BigNumber_shl_def
      BigNumber_or_def)

lemma versionedNonce_Str:
  "versionedNonce lib (Str (BigNumber_toString n)) = versionedNonce lib (Big n)"
  by (simp add: versionedNonce_def BigNumber_from_toString) (simp add: BigNumber_from_def)

lemma sentMessageOfEvent_hash:
  "sentMessageOfEvent lib exts event = Inr msg \<Longrightarrow>
   hashCrossDomainMessageV1 lib (Big (args_messageNonce event)) (args_sender event)
     (args_target event) (msg_value msg) (Big (args_gasLimit event)) (args_message event)
   = Inr (messageHash msg)"
  by (auto simp add: sentMessageOfEvent_def bind_def
      split: sum.splits option.splits if_splits)

lemma relayL1Message_try_sent:
  assumes "relayL1Message_try lib l2 vn a b c v g = Inr r"
  shows "\<exists>calldata txHash.
           encodeFunctionData_relayMessage lib (Big vn) a b (Big v) (Num g) c = Inr calldata \<and>
           l2_sendTransaction l2 \<lparr>tx_data = calldata, tx_value = (if v \<noteq> 0 then Some v else None)\<rparr>
             = Inr txHash \<and>
           l2_getTransactionReceipt l2 txHash = Inr (Some r)"
  using assms
  by (auto simp add: relayL1Message_try_def bind_def split: sum.splits option.splits if_splits)

text \<open>
  Claim C10: \<open>relayL1Message\<close> always re-applies the version discriminator. For every
  nonce \<open>n\<close> that is not negative, given as a \<open>BigNumber\<close> or as the decimal string the
  indexer stores, the versioned nonce is the bitwise OR of \<open>1 << 240\<close> and \<open>n\<close>, and the
  call goes on with that nonce: a receipt is the receipt of a transaction whose calldata is
  \<open>relayMessage\<close> with that nonce (a negative nonce raises before any call). If \<open>n\<close> carries
  version 1 in its bits from 240 up, the submitted nonce is \<open>n\<close>; if it carries version 0,
  the submitted nonce is \<open>n + 2^240\<close>, of version 1, and differs from \<open>n\<close>. For a
  message indexed from an event with nonce \<open>n\<close>, the identity hash was computed with
  \<open>n\<close> and \<open>relayPendingMessages\<close> relays it with \<open>(1 << 240) | n\<close>.
\<close>

theorem relay_reapplies_version:
  "(0 \<le> n \<longrightarrow>
      versionedNonce lib (Big n) = Inr (or (2 ^ 240) n) \<and>
      versionedNonce lib (Str (BigNumber_toString n)) = Inr (or (2 ^ 240) n) \<and>
      relayL1Message lib l2 l1Sender tgt payload (Str (BigNumber_toString n)) v g
        = relayL1Message_try lib l2 (or (2 ^ 240) n) l1Sender tgt payload v g \<and>
      (\<forall>r. relayL1Message lib l2 l1Sender tgt payload (Str (BigNumber_toString n)) v g = Inr r \<longrightarrow>
         (\<exists>calldata txHash.
            encodeFunctionData_relayMessage lib (Big (or (2 ^ 240) n)) l1Sender tgt (Big v)
              (Num g) payload = Inr calldata \<and>
            l2_sendTransaction l2
              \<lparr>tx_data = calldata, tx_value = (if v \<noteq> 0 then Some v else None)\<rparr> = Inr txHash \<and>
            l2_getTransactionReceipt l2 txHash = Inr (Some r)))) \<and>
   (n < 0 \<longrightarrow>
      relayL1Message lib l2 l1Sender tgt payload (Str (BigNumber_toString n)) v g
        = Inl (NumericFault ''unbound-bitwise-result'')) \<and>
   (drop_bit 240 n = 1 \<longrightarrow> or (2 ^ 240) n = n) \<and>
   (drop_bit 240 n = 0 \<longrightarrow>
      or (2 ^ 240) n = n + 2 ^ 240 \<and> or (2 ^ 240) n \<noteq> n \<and> drop_bit 240 (or (2 ^ 240) n) = 1) \<and>
   (sentMessageOfEvent lib exts event = Inr msg \<and> args_messageNonce event = n \<and> 0 \<le> n \<longrightarrow>
      hashCrossDomainMessageV1 lib (Big n) (args_sender event) (args_target event)
        (msg_value msg) (Big (args_gasLimit event)) (args_message event)
        = Inr (messageHash msg) \<and>
      relayOf lib l2 (pendingMessage msg ts)
        = relayL1Message_try lib l2 (or (2 ^ 240) n) (args_sender event) (args_target event)
            (args_message event) (msg_value msg) (args_gasLimit event))"
proof -
  have big: "versionedNonce lib (Big n) = Inr (or (2 ^ 240) n)" if "0 \<le> n"
    using that by (simp add: versionedNonce_Big)
  have str: "versionedNonce lib (Str (BigNumber_toString n)) = Inr (or (2 ^ 240) n)" if "0 \<le> n"
    using that by (simp add: versionedNonce_Str versionedNonce_Big)
  have relay: "relayL1Message lib l2 a b c (Str (BigNumber_toString n)) x y
        = relayL1Message_try lib l2 (or (2 ^ 240) n) a b c x y" if "0 \<le> n" for a b c x y
    using str [OF that] by (simp add: relayL1Message_def)
  have sent: "\<exists>calldata txHash.
            encodeFunctionData_relayMessage lib (Big (or (2 ^ 240) n)) l1Sender tgt (Big v)
              (Num g) payload = Inr calldata \<and>
            l2_sendTransaction l2
              \<lparr>tx_data = calldata, tx_value = (if v \<noteq> 0 then Some v else None)\<rparr> = Inr txHash \<and>
            l2_getTransactionReceipt l2 txHash = Inr (Some r)"
    if "0 \<le> n"
      and "relayL1Message lib l2 l1Sender tgt payload (Str (BigNumber_toString n)) v g = Inr r"
    for r
  proof -
    from that relay [OF that(1)]
    have "relayL1Message_try lib l2 (or (2 ^ 240) n) l1Sender tgt payload v g = Inr r" by simp
    then show ?thesis by (rule relayL1Message_try_sent)
  qed
  have neg: "relayL1Message lib l2 l1Sender tgt payload (Str (BigNumber_toString n)) v g
        = Inl (NumericFault ''unbound-bitwise-result'')" if "n < 0"
    using that by (simp add: relayL1Message_def versionedNonce_Str versionedNonce_Big)
  have v1: "or (2 ^ 240) n = n" if "drop_bit 240 n = 1"
    using that by (rule or_version_set)
  have v0: "or (2 ^ 240) n = n + 2 ^ 240 \<and> or (2 ^ 240) n \<noteq> n \<and>
            drop_bit 240 (or (2 ^ 240) n) = 1" if "drop_bit 240 n = 0"
    using or_version_clear [OF that] drop_bit_or_version [OF that] by simp
  have idx: "hashCrossDomainMessageV1 lib (Big n) (args_sender event) (args_target event)
        (msg_value msg) (Big (args_gasLimit event)) (args_message event)
        = Inr (messageHash msg) \<and>
      relayOf lib l2 (pendingMessage msg ts)
        = relayL1Message_try lib l2 (or (2 ^ 240) n) (args_sender event) (args_target event)
            (args_message event) (msg_value msg) (args_gasLimit event)"
    if ok: "sentMessageOfEvent lib exts event = Inr msg" and n: "args_messageNonce event = n"
      and pos: "0 \<le> n"
  proof -
    from sentMessageOfEvent_hash [OF ok] n
    have h: "hashCrossDomainMessageV1 lib (Big n) (args_sender event) (args_target event)
        (msg_value msg) (Big (args_gasLimit event)) (args_message event)
        = Inr (messageHash msg)" by simp
    from sentMessageOfEvent_fields [OF ok] n
    have f: "sender msg = args_sender event" "target msg = args_target event"
      "message msg = args_message event" "messageNonce msg = BigNumber_toString n"
      "gasLimit msg = args_gasLimit event" by simp_all
    have "relayOf lib l2 (pendingMessage msg ts)
        = relayL1Message lib l2 (args_sender event) (args_target event) (args_message event)
            (Str (BigNumber_toString n)) (msg_value msg) (args_gasLimit event)"
      by (simp add: relayOf_def f)
    with relay [OF pos] h show ?thesis by simp
  qed
  from big str relay sent neg v1 v0 idx show ?thesis by blast
qed

theorem relay_reapplies_version_witness:
  "versionedNonce stub_ethers (Str (BigNumber_toString 1)) = Inr (or (2 ^ 240) 1) \<and>
   or (2 ^ 240) (1::int) = 1 + 2 ^ 240 \<and>
   or (2 ^ 240) (2 ^ 240 + 1 :: int) = 2 ^ 240 + 1 \<and>
   relayOf stub_ethers (quiet_l2 50) (pendingMessage (scenario_sent 105 0) 1700000000)
     = relayL1Message_try stub_ethers (quiet_l2 50) (or (2 ^ 240) 1) addr_aa addr_bb ''0x1234''
         0 200000"
proof -
  have a: "(0::int) \<le> 1" by simp
  have b: "drop_bit 240 (1::int) = 0" by (simp add: drop_bit_eq_div)
  have c: "drop_bit 240 (2 ^ 240 + 1 :: int) = 1" by (simp add: drop_bit_eq_div)
  have d: "sentMessageOfEvent stub_ethers [] (scenario_event 105) = Inr (scenario_sent 105 0)"
    by (simp add: sentMessageOfEvent_def scenario_event_def scenario_hash_eq
        BigNumber_toNumber_def toString_1 scenario_sent_def)
  have e: "args_messageNonce (scenario_event 105) = 1" by (simp add: scenario_event_def)
  from relay_reapplies_version [of 1 stub_ethers "quiet_l2 50" addr_aa addr_bb "''0x1234''" 0
      200000 "[]" "scenario_event 105" "scenario_sent 105 0" 1700000000] a b d e
  have 1: "versionedNonce stub_ethers (Str (BigNumber_toString 1)) = Inr (or (2 ^ 240) 1)"
    and 2: "or (2 ^ 240) (1::int) = 1 + 2 ^ 240"
    and 3: "relayOf stub_ethers (quiet_l2 50) (pendingMessage (scenario_sent 105 0) 1700000000)
     = relayL1Message_try stub_ethers (quiet_l2 50) (or (2 ^ 240) 1) addr_aa addr_bb ''0x1234''
         0 200000"
    by (simp_all add: scenario_event_def scenario_sent_def)
  from relay_reapplies_version [of "2 ^ 240 + 1" stub_ethers "quiet_l2 50" addr_aa addr_bb
      "''0x1234''" 0 200000 "[]" "scenario_event 105" "scenario_sent 105 0" 1700000000] c
  have 4: "or (2 ^ 240) (2 ^ 240 + 1 :: int) = 2 ^ 240 + 1" by blast
  from 1 2 3 4 show ?thesis by blast
qed

section \<open>The Message Identity Function\<close>

lemma encode_uint256_isl:
  "BigNumber_from lib x = Inr n \<Longrightarrow> n < 0 \<or> 2 ^ 256 \<le> n \<Longrightarrow> isl (encode_uint256 lib x)"
  by (auto simp add: encode_uint256_def)

lemma hash_value_out_of_bounds:
  assumes "v < 0 \<or> 2 ^ 256 \<le> v"
  shows "isl (hashCrossDomainMessageV1 lib nonce sa ta v gl dat)"
proof -
  have "isl (encode_uint256 lib (Big v))"
    using assms by (auto simp add: encode_uint256_def BigNumber_from_def)
  then obtain e where "encode_uint256 lib (Big v) = Inl e"
    by (cases "encode_uint256 lib (Big v)") auto
  then show ?thesis
    by (simp add: hashCrossDomainMessageV1_def encodeCrossDomainMessageV1_def
        encodeFunctionData_relayMessage_def bind_def split: sum.splits)
qed

lemma hash_unsafe_gasLimit:
  assumes "MAX_SAFE \<le> g"
  shows "isl (hashCrossDomainMessageV1 lib nonce sa ta v (Num g) dat)"
proof -
  have "encode_uint256 lib (Num g) = Inl (NumericFault ''overflow'')"
    using assms by (simp add: encode_uint256_def BigNumber_from_def)
  then show ?thesis
    by (simp add: hashCrossDomainMessageV1_def encodeCrossDomainMessageV1_def
        encodeFunctionData_relayMessage_def bind_def split: sum.splits)
qed

lemma arrayify_hex:
  "list_all is_hex_digit h \<Longrightarrow> even (length h) \<Longrightarrow>
   arrayify (CHR ''0'' # CHR ''x'' # h) = Inr (toLowerCase h)"
  by (simp add: arrayify_def)

lemma hex_1234: "list_all is_hex_digit ''1234''"
  by code_simp

lemma lower_1234: "toLowerCase ''1234'' = ''1234''"
  by code_simp

text \<open>
  Claim C8, as stated, fails: the function is not total. The ABI coder of the \<open>uint256\<close>
  fields refuses a value outside \<open>[0, 2^256)\<close>, and \<open>value\<close> is a \<open>BigNumber\<close>, which
  holds any integer. Here the scenario's message is hashed with the value \<open>2^256\<close>.
\<close>

theorem identity_hash_out_of_bounds_counterexample:
  "hashCrossDomainMessageV1 stub_ethers (Big 1) addr_aa addr_bb (2 ^ 256) (Num 200000) ''0x1234''
     = Inl (InvalidArgument ''value out-of-bounds'')"
  by (simp add: hashCrossDomainMessageV1_def encodeCrossDomainMessageV1_def
      encodeFunctionData_relayMessage_def encode_uint256_def encode_address_def
      BigNumber_from_def stub_ethers_def)

text \<open>
  Claim C8, amended: for all valid inputs \<open>hashCrossDomainMessageV1\<close> returns a digest,
  which is the \<open>keccak256\<close> of the \<open>encodeCrossDomainMessageV1\<close> encoding of the six
  fields: the selector, the five static words, the offset 192 and the length-prefixed,
  zero-padded payload. Valid means: the nonce is a \<open>BigNumber\<close>, or the decimal string
  of one, in \<open>[0, 2^256)\<close>; the value is in \<open>[0, 2^256)\<close>; the gas limit is a
  \<open>BigNumber\<close> in \<open>[0, 2^256)\<close> or a \<open>number\<close> in \<open>[0, 2^53 - 1)\<close>, that is at
  most 9007199254740990; \<open>getAddress\<close> accepts sender and target; the payload is
  \<open>0x\<close> and an even number of hex digits. The function is not total: it raises for
  every value outside \<open>[0, 2^256)\<close> and for every \<open>number\<close> gas limit from
  \<open>2^53 - 1\<close> (\<open>Number.MAX_SAFE_INTEGER\<close>) up, whatever the other inputs. The digest is
  a function of the six fields and of nothing else, so equal inputs give equal digests.
\<close>

theorem identity_hash_on_valid_inputs:
  assumes "nonce = Big n \<or> nonce = Str (BigNumber_toString n)"
    and "0 \<le> n" and "n < 2 ^ 256"
    and "getAddress lib sa = Inr a" and "getAddress lib ta = Inr b"
    and "0 \<le> v" and "v < 2 ^ 256"
    and "gl = Big g \<and> g < 2 ^ 256 \<or> gl = Num g \<and> g < 9007199254740991"
    and "0 \<le> g"
    and "dat = ''0x'' @ h" and "list_all is_hex_digit h" and "even (length h)"
  shows "encodeCrossDomainMessageV1 lib nonce sa ta v gl dat =
           Inr (''0x'' @ sighash lib @ hex_word (nat n) @ hex_word (hex_val (drop 2 a)) @
                hex_word (hex_val (drop 2 b)) @ hex_word (nat v) @ hex_word (nat g) @
                hex_word 192 @ hex_word (length h div 2) @ toLowerCase h @
                replicate ((64 - length h mod 64) mod 64) CHR ''0'') \<and>
         hashCrossDomainMessageV1 lib nonce sa ta v gl dat =
           Inr (keccak256 lib
                 (''0x'' @ sighash lib @ hex_word (nat n) @ hex_word (hex_val (drop 2 a)) @
                  hex_word (hex_val (drop 2 b)) @ hex_word (nat v) @ hex_word (nat g) @
                  hex_word 192 @ hex_word (length h div 2) @ toLowerCase h @
                  replicate ((64 - length h mod 64) mod 64) CHR ''0'')) \<and>
         (\<forall>nonce' sa' ta' v' gl' dat'.
            v' < 0 \<or> 2 ^ 256 \<le> v' \<longrightarrow>
            isl (hashCrossDomainMessageV1 lib nonce' sa' ta' v' gl' dat')) \<and>
         (\<forall>nonce' sa' ta' v' g' dat'.
            9007199254740991 \<le> g' \<longrightarrow>
            isl (hashCrossDomainMessageV1 lib nonce' sa' ta' v' (Num g') dat'))"
proof -
  from assms(1) have n: "BigNumber_from lib nonce = Inr n"
    by (auto simp add: BigNumber_from_toString) (simp add: BigNumber_from_def)
  from assms(8,9) have g: "BigNumber_from lib gl = Inr g" and gb: "g < 2 ^ 256"
    by (auto simp add: BigNumber_from_def MAX_SAFE_def)
  from assms(10,11,12) have d: "arrayify dat = Inr (toLowerCase h)"
    by (simp add: arrayify_hex)
  have len: "length (toLowerCase h) = length h" by (simp add: toLowerCase_def)
  from hash_valid [OF n assms(2,3,4,5,6,7) g assms(9) gb d]
  have enc: "encodeCrossDomainMessageV1 lib nonce sa ta v gl dat =
           Inr (''0x'' @ sighash lib @ hex_word (nat n) @ hex_word (hex_val (drop 2 a)) @
                hex_word (hex_val (drop 2 b)) @ hex_word (nat v) @ hex_word (nat g) @
                hex_word 192 @ hex_word (length h div 2) @ toLowerCase h @
                replicate ((64 - length h mod 64) mod 64) CHR ''0'')"
    by (simp add: len)
  have out: "isl (hashCrossDomainMessageV1 lib nonce' sa' ta' v' gl' dat')"
    if "v' < 0 \<or> 2 ^ 256 \<le> v'" for nonce' sa' ta' v' gl' dat'
    using that by (rule hash_value_out_of_bounds)
  have unsafe: "isl (hashCrossDomainMessageV1 lib nonce' sa' ta' v' (Num g') dat')"
    if "9007199254740991 \<le> g'" for nonce' sa' ta' v' g' dat'
    using that by (simp add: hash_unsafe_gasLimit MAX_SAFE_def)
  from enc out unsafe show ?thesis by (simp add: hashCrossDomainMessageV1_def)
qed

theorem identity_hash_on_valid_inputs_witness:
  "hashCrossDomainMessageV1 stub_ethers (Big 1) addr_aa addr_bb 0 (Num 200000) ''0x1234''
     = Inr (scenario_hash 0) \<and>
   hashCrossDomainMessageV1 stub_ethers (Str ''1'') addr_aa addr_bb 0 (Big 200000) ''0x1234''
     = Inr (scenario_hash 0) \<and>
   isl (hashCrossDomainMessageV1 stub_ethers (Big 1) addr_aa addr_bb 0 (Num 9007199254740991)
          ''0x1234'')"
proof -
  have a: "getAddress stub_ethers addr_aa = Inr addr_aa" by (simp add: stub_ethers_def)
  have b: "getAddress stub_ethers addr_bb = Inr addr_bb" by (simp add: stub_ethers_def)
  have d: "''0x1234'' = ''0x'' @ ''1234''" by simp
  have e: "even (length ''1234'')" by simp
  have l: "length ''1234'' div 2 = (2::nat)" by simp
  have p: "(64 - length ''1234'' mod 64) mod 64 = (60::nat)" by simp
  have n1: "Big 1 = Big 1 \<or> Big 1 = Str (BigNumber_toString 1)" by simp
  have n2: "Str ''1'' = Big 1 \<or> Str ''1'' = Str (BigNumber_toString 1)"
    by (simp add: toString_1)
  have g1: "Num 200000 = Big 200000 \<and> (200000::int) < 2 ^ 256 \<or>
            Num 200000 = Num 200000 \<and> (200000::int) < 9007199254740991" by simp
  have g2: "Big 200000 = Big 200000 \<and> (200000::int) < 2 ^ 256 \<or>
            Big 200000 = Num 200000 \<and> (200000::int) < 9007199254740991" by simp
  from identity_hash_on_valid_inputs [OF n1 _ _ a b _ _ g1 _ d hex_1234 e, of 0]
  have 1: "hashCrossDomainMessageV1 stub_ethers (Big 1) addr_aa addr_bb 0 (Num 200000) ''0x1234''
     = Inr (scenario_hash 0)"
    and 3: "isl (hashCrossDomainMessageV1 stub_ethers (Big 1) addr_aa addr_bb 0
                   (Num 9007199254740991) ''0x1234'')"
    unfolding l p lower_1234 by (simp_all add: scenario_hash_def)
  from identity_hash_on_valid_inputs [OF n2 _ _ a b _ _ g2 _ d hex_1234 e, of 0]
  have 2: "hashCrossDomainMessageV1 stub_ethers (Str ''1'') addr_aa addr_bb 0 (Big 200000) ''0x1234''
     = Inr (scenario_hash 0)"
    unfolding l p lower_1234 by (simp add: scenario_hash_def)
  from 1 2 3 show ?thesis by simp
qed

section \<open>Lemmas on marking\<close>

lemma map_of_Some_key: "map_of q h = Some m \<Longrightarrow> h \<in> fst ` set q"
  by (force dest: map_of_SomeD)

lemma mark_step_keys:
  "map_of q h = Some m \<Longrightarrow> map fst (AList.update h v q) = map fst q"
  by (simp add: update_keys map_of_Some_key)

lemma markRelayed_frame:
  "map fst (messageQueue (state (markRelayed hashes s))) = map fst (messageQueue (state s)) \<and>
   lastScannedL1Block (state (markRelayed hashes s)) = lastScannedL1Block (state s) \<and>
   lastScannedL2Block (state (markRelayed hashes s)) = lastScannedL2Block (state s) \<and>
   options (markRelayed hashes s) = options s \<and>
   nodeConnectionFailures (metrics (markRelayed hashes s)) = nodeConnectionFailures (metrics s)"
proof (induction hashes arbitrary: s)
  case Nil
  then show ?case by simp
next
  case (Cons h hs)
  show ?case
  proof (cases "map_of (messageQueue (state s)) h")
    case None
    then show ?thesis by (simp add: Cons.IH)
  next
    case (Some m)
    then show ?thesis
      by (simp add: Cons.IH service_defs mark_step_keys)
  qed
qed

lemma markRelayed_skip:
  "map_of (messageQueue (state s)) h = None \<Longrightarrow> markRelayed (h # hs) s = markRelayed hs s"
  "map_of (messageQueue (state s)) h = Some m \<Longrightarrow> isRelayed m \<Longrightarrow>
   markRelayed (h # hs) s = markRelayed hs s"
  by simp_all

lemma markRelayed_drop_unknown:
  "markRelayed hashes s =
   markRelayed (filter (\<lambda>h. h \<in> set (map fst (messageQueue (state s)))) hashes) s"
proof (induction hashes arbitrary: s)
  case Nil
  then show ?case by simp
next
  case (Cons h hs)
  show ?case
  proof (cases "map_of (messageQueue (state s)) h")
    case None
    then have "h \<notin> set (map fst (messageQueue (state s)))"
      by (simp add: map_of_eq_None_iff)
    with None Cons.IH [of s] show ?thesis by simp
  next
    case (Some m)
    then have k: "h \<in> set (map fst (messageQueue (state s)))"
      by (simp add: map_of_Some_key)
    let ?s1 = "if \<not> isRelayed m then
               pendingMessages_dec
                 (messagesRelayed_inc
                    (set_messageQueue
                       (AList.update h (m\<lparr>isRelayed := True\<rparr>) (messageQueue (state s))) s))
             else s"
    have keys: "map fst (messageQueue (state ?s1)) = map fst (messageQueue (state s))"
      using Some by (simp add: service_defs mark_step_keys)
    have "markRelayed (h # hs) s = markRelayed hs ?s1" using Some by simp
    also have "\<dots> = markRelayed (filter (\<lambda>h. h \<in> set (map fst (messageQueue (state ?s1)))) hs) ?s1"
      by (rule Cons.IH)
    also have "\<dots> = markRelayed (filter (\<lambda>h. h \<in> set (map fst (messageQueue (state s)))) hs) ?s1"
      by (simp only: keys)
    also have "\<dots> = markRelayed (h # filter (\<lambda>h. h \<in> set (map fst (messageQueue (state s)))) hs) s"
      using Some by simp
    finally show ?thesis using k by simp
  qed
qed

lemma markRelayed_all_settled:
  "\<forall>h \<in> set hashes. (case map_of (messageQueue (state s)) h of None \<Rightarrow> True | Some m \<Rightarrow> isRelayed m)
   \<Longrightarrow> markRelayed hashes s = s"
  by (induction hashes) (auto split: option.splits)

section \<open>Confirmations of unknown hashes\<close>

lemma hex_word_length: "length (hex_word n) = 64"
  by (simp add: hex_word_def)

lemma scenario_hash_long: "length (scenario_hash v) > 64"
  by (simp add: scenario_hash_def stub_ethers_def hex_word_length)

lemma dead_not_scenario_hash: "''0xdead'' \<noteq> scenario_hash v"
proof
  assume "''0xdead'' = scenario_hash v"
  then have "length ''0xdead'' = length (scenario_hash v)" by simp
  with scenario_hash_long [of v] show False by simp
qed

lemma checkRelayedMessages_keys:
  "map fst (messageQueue (state (snd (checkRelayedMessages l2 s)))) = map fst (messageQueue (state s))"
  by (simp add: checkRelayedMessages_def markRelayed_frame service_defs
      split: sum.splits)

text \<open>
  Claim C7: a hash of the confirmation scan that is not a key of the store changes
  nothing, and no record is made for it; a hash whose record is already Relayed changes
  nothing either. So the unknown hashes can be struck from the scan without changing the
  outcome, \<open>checkRelayedMessages\<close> never adds a key, and a scan that holds only unknown
  or already Relayed hashes leaves the store and the metrics as they were and only
  advances the L2 cursor.
\<close>

theorem unknown_confirmations_are_ignored:
  "(map_of (messageQueue (state s)) h = None \<longrightarrow>
      markRelayed (h # hs) s = markRelayed hs s \<and>
      map_of (messageQueue (state (markRelayed hashes s))) h = None) \<and>
   ((\<exists>m. map_of (messageQueue (state s)) h = Some m \<and> isRelayed m) \<longrightarrow>
      markRelayed (h # hs) s = markRelayed hs s) \<and>
   markRelayed hashes s =
     markRelayed (filter (\<lambda>h. h \<in> set (map fst (messageQueue (state s)))) hashes) s \<and>
   map fst (messageQueue (state (snd (checkRelayedMessages l2 s))))
     = map fst (messageQueue (state s)) \<and>
   (l2_getBlockNumber l2 = Inr latest \<and> lastScannedL2Block (state s) < latest \<and>
    getRelayedMessageEvents l2 (lastScannedL2Block (state s) + 1) latest = Inr hashes \<and>
    (\<forall>k \<in> set hashes.
       case map_of (messageQueue (state s)) k of None \<Rightarrow> True | Some m \<Rightarrow> isRelayed m) \<longrightarrow>
      checkRelayedMessages l2 s = (Inr (), set_lastScannedL2Block latest s))"
proof -
  have unknown: "markRelayed (h # hs) s = markRelayed hs s \<and>
      map_of (messageQueue (state (markRelayed hashes s))) h = None"
    if none: "map_of (messageQueue (state s)) h = None"
  proof -
    from none have "h \<notin> fst ` set (messageQueue (state s))"
      by (simp add: map_of_eq_None_iff)
    then have "h \<notin> set (map fst (messageQueue (state (markRelayed hashes s))))"
      by (simp add: markRelayed_frame)
    then have "map_of (messageQueue (state (markRelayed hashes s))) h = None"
      by (simp add: map_of_eq_None_iff)
    with none show ?thesis by simp
  qed
  have relayed: "markRelayed (h # hs) s = markRelayed hs s"
    if "\<exists>m. map_of (messageQueue (state s)) h = Some m \<and> isRelayed m"
    using that by auto
  have scan: "checkRelayedMessages l2 s = (Inr (), set_lastScannedL2Block latest s)"
    if "l2_getBlockNumber l2 = Inr latest" "lastScannedL2Block (state s) < latest"
      "getRelayedMessageEvents l2 (lastScannedL2Block (state s) + 1) latest = Inr hashes"
      "\<forall>k \<in> set hashes.
         case map_of (messageQueue (state s)) k of None \<Rightarrow> True | Some m \<Rightarrow> isRelayed m"
  proof -
    from that(4) have "markRelayed hashes s = s" by (rule markRelayed_all_settled)
    with that(1,2,3) show ?thesis by (simp add: checkRelayedMessages_def)
  qed
  from unknown relayed scan markRelayed_drop_unknown [of hashes s]
    checkRelayedMessages_keys [of l2 s]
  show ?thesis by blast
qed

theorem unknown_confirmations_are_ignored_witness:
  "map_of (messageQueue (state (scenario_service True))) ''0xdead'' = None \<and>
   checkRelayedMessages (confirming_l2 150 [''0xdead'', scenario_hash 0]) (scenario_service True)
     = (Inr (), set_lastScannedL2Block 150 (scenario_service True))"
proof -
  let ?s = "scenario_service True"
  let ?l2 = "confirming_l2 150 [''0xdead'', scenario_hash 0]"
  have q: "messageQueue (state ?s) =
     [(scenario_hash 0, (pendingMessage (scenario_sent 105 0) 1700000000)\<lparr>isRelayed := True\<rparr>)]"
    by (simp add: scenario_service_def)
  have none: "map_of (messageQueue (state ?s)) ''0xdead'' = None"
    using dead_not_scenario_hash [of 0] by (simp add: q)
  have a: "l2_getBlockNumber ?l2 = Inr 150" by (simp add: confirming_l2_def quiet_l2_def)
  have b: "lastScannedL2Block (state ?s) < 150" by (simp add: scenario_service_def)
  have c: "getRelayedMessageEvents ?l2 (lastScannedL2Block (state ?s) + 1) 150
             = Inr [''0xdead'', scenario_hash 0]"
    by (simp add: getRelayedMessageEvents_def confirming_l2_def quiet_l2_def)
  have d: "\<forall>k \<in> set [''0xdead'', scenario_hash 0].
             case map_of (messageQueue (state ?s)) k of None \<Rightarrow> True | Some m \<Rightarrow> isRelayed m"
    using dead_not_scenario_hash [of 0] by (simp add: q)
  from unknown_confirmations_are_ignored
    [of ?s "''0xdead''" "[]" "[''0xdead'', scenario_hash 0]" ?l2 150] a b c d none
  show ?thesis by blast
qed

section \<open>The routes\<close>

lemma routes_read_only:
  "snd (healthz s) = s \<and> snd (messages_route s) = s \<and> hz_status (fst (healthz s)) = 200 \<and>
   hz_ok (fst (healthz s)) \<and> fst (fst (messages_route s)) = 200"
  by (simp add: healthz_def messages_route_def)

text \<open>
  Claim C3 is not met by the code. Both routes answer 200 and leave the service
  unchanged (lemma \<open>routes_read_only\<close>), but the field \<open>pendingMessages\<close> of
  \<open>/healthz\<close> is the size of the map, not the number of pending messages: with one
  stored message, already Relayed, it reports 1 where \<open>updateMetrics\<close> counts 0.
\<close>

theorem healthz_reports_store_size:
  "fst (healthz (scenario_service True))
     = \<lparr>hz_status = 200, hz_ok = True, hz_synced = True, hz_pendingMessages = 1\<rparr> \<and>
   pendingCount (scenario_service True) = 0"
  by (simp add: healthz_def pendingCount_def scenario_service_def)

section \<open>The cursors at start-up\<close>

text \<open>
  Claim C2 is not met by the code at start-up. \<open>init\<close> sets both cursors to the
  configured start blocks and \<open>indexHistoricalMessages\<close> then assigns the chain heads
  without comparing: with start block 100 and both chains at height 50, the cursors go
  from 100 down to 50.
\<close>

theorem init_lowers_cursor_below_start:
  "lastScannedL1Block (state (init_assign \<lparr>l1StartBlock = 100, l2StartBlock = 100\<rparr>)) = 100 \<and>
   lastScannedL2Block (state (init_assign \<lparr>l1StartBlock = 100, l2StartBlock = 100\<rparr>)) = 100 \<and>
   fst (init stub_ethers (quiet_l1 50) (quiet_l2 50) \<lparr>l1StartBlock = 100, l2StartBlock = 100\<rparr>)
     = Inr () \<and>
   lastScannedL1Block
     (state (snd (init stub_ethers (quiet_l1 50) (quiet_l2 50)
                    \<lparr>l1StartBlock = 100, l2StartBlock = 100\<rparr>))) = 50 \<and>
   lastScannedL2Block
     (state (snd (init stub_ethers (quiet_l1 50) (quiet_l2 50)
                    \<lparr>l1StartBlock = 100, l2StartBlock = 100\<rparr>))) = 50"
  by (simp add: init_def init_assign_def indexHistoricalMessages_def quiet_l1_def quiet_l2_def
      getSentMessageEvents_def getRelayedMessageEvents_def service_defs)

section \<open>Relaying the pending messages\<close>

lemma relayLoop_entries:
  "fst (relayLoop lib l2 es mt) =
     map (\<lambda>(h, m). (h, if \<not> isRelayed m \<and> \<not> isl (relayOf lib l2 m)
                          then m\<lparr>isRelayed := True\<rparr> else m)) es"
  by (induction es arbitrary: mt) (auto simp add: case_prod_beta split: sum.splits)

lemma relayLoop_attempts:
  "snd (snd (relayLoop lib l2 es mt)) = map fst (filter (\<lambda>(h, m). \<not> isRelayed m) es)"
  by (induction es arbitrary: mt) (auto simp add: case_prod_beta split: sum.splits)

lemma relayPendingMessages_queue:
  "messageQueue (state (fst (relayPendingMessages lib l2 s))) =
     map (\<lambda>(h, m). (h, if \<not> isRelayed m \<and> \<not> isl (relayOf lib l2 m)
                          then m\<lparr>isRelayed := True\<rparr> else m)) (messageQueue (state s))"
proof -
  obtain es mt attempts
    where r: "relayLoop lib l2 (messageQueue (state s)) (metrics s) = (es, mt, attempts)"
    by (cases "relayLoop lib l2 (messageQueue (state s)) (metrics s)") auto
  then have "es = fst (relayLoop lib l2 (messageQueue (state s)) (metrics s))" by simp
  with r show ?thesis
    by (simp add: relayPendingMessages_def relayLoop_entries service_defs)
qed

lemma relayPendingMessages_attempts:
  "snd (relayPendingMessages lib l2 s) =
     map fst (filter (\<lambda>(h, m). \<not> isRelayed m) (messageQueue (state s)))"
proof -
  obtain es mt attempts
    where r: "relayLoop lib l2 (messageQueue (state s)) (metrics s) = (es, mt, attempts)"
    by (cases "relayLoop lib l2 (messageQueue (state s)) (metrics s)") auto
  then have "attempts = snd (snd (relayLoop lib l2 (messageQueue (state s)) (metrics s)))"
    by simp
  with r show ?thesis
    by (simp add: relayPendingMessages_def relayLoop_attempts)
qed

lemma relayPendingMessages_frame:
  "lastScannedL1Block (state (fst (relayPendingMessages lib l2 s))) = lastScannedL1Block (state s) \<and>
   lastScannedL2Block (state (fst (relayPendingMessages lib l2 s))) = lastScannedL2Block (state s) \<and>
   options (fst (relayPendingMessages lib l2 s)) = options s"
  by (simp add: relayPendingMessages_def service_defs split: prod.splits)

lemma map_of_relayed:
  "map_of (map (\<lambda>(h, m). (h, f m)) q) k = map_option f (map_of q k)"
  by (induction q) auto

lemma hex_word_last: "hex_word n ! 63 = hex_char (n mod 16)"
  by (simp add: hex_word_def)

lemma hex_word_0_5: "hex_word 0 \<noteq> hex_word 5"
proof
  assume "hex_word 0 = hex_word 5"
  then have "hex_word 0 ! 63 = hex_word 5 ! 63" by simp
  then show False by (simp add: hex_word_last hex_char_def)
qed

lemma scenario_hash_0_5: "scenario_hash 0 \<noteq> scenario_hash 5"
  using hex_word_0_5 by (simp add: scenario_hash_def stub_ethers_def)

lemma encodeFunctionData_scenario:
  "0 \<le> v \<Longrightarrow> v < 2 ^ 256 \<Longrightarrow>
   \<exists>calldata. encodeFunctionData_relayMessage stub_ethers (Big (or (2 ^ 240) 1)) addr_aa addr_bb
                 (Big v) (Num 200000) ''0x1234'' = Inr calldata"
proof -
  assume v: "0 \<le> v" "v < 2 ^ 256"
  have d: "drop_bit 240 (1::int) = 0" by (simp add: drop_bit_eq_div)
  have o: "or (2 ^ 240) (1::int) = 1 + 2 ^ 240" using or_version_clear [OF d] .
  have n: "BigNumber_from stub_ethers (Big (or (2 ^ 240) 1)) = Inr (1 + 2 ^ 240)"
    by (simp add: BigNumber_from_def o)
  have g: "BigNumber_from stub_ethers (Num 200000) = Inr 200000"
    by (simp add: BigNumber_from_def MAX_SAFE_def)
  have a: "getAddress stub_ethers addr_aa = Inr addr_aa" by (simp add: stub_ethers_def)
  have b: "getAddress stub_ethers addr_bb = Inr addr_bb" by (simp add: stub_ethers_def)
  from hash_valid [OF n _ _ a b v g _ _ arrayify_1234]
  show ?thesis by (simp add: encodeCrossDomainMessageV1_def)
qed

lemma versionedNonce_scenario:
  "versionedNonce stub_ethers (Str ''1'') = Inr (or (2 ^ 240) 1)"
proof -
  have "versionedNonce stub_ethers (Str (BigNumber_toString 1)) = Inr (or (2 ^ 240) 1)"
    by (simp add: versionedNonce_Str versionedNonce_Big)
  then show ?thesis by (simp add: toString_1)
qed

lemma relayOf_scenario_reverts:
  "relayOf stub_ethers relay_l2 (pendingMessage (scenario_sent 105 0) ts)
     = Inl (ProviderError ''execution reverted'')"
proof -
  from encodeFunctionData_scenario [of 0] obtain calldata
    where c: "encodeFunctionData_relayMessage stub_ethers (Big (or (2 ^ 240) 1)) addr_aa addr_bb
                 (Big 0) (Num 200000) ''0x1234'' = Inr calldata" by auto
  then show ?thesis
    by (simp add: relayOf_def relayL1Message_def versionedNonce_scenario relayL1Message_try_def
        scenario_sent_def relay_l2_def)
qed

lemma relayOf_scenario_mined:
  "relayOf stub_ethers relay_l2 (pendingMessage (scenario_sent 105 5) ts)
     = Inr \<lparr>receipt_blockNumber = 51\<rparr>"
proof -
  from encodeFunctionData_scenario [of 5] obtain calldata
    where c: "encodeFunctionData_relayMessage stub_ethers (Big (or (2 ^ 240) 1)) addr_aa addr_bb
                 (Big 5) (Num 200000) ''0x1234'' = Inr calldata" by auto
  then show ?thesis
    by (simp add: relayOf_def relayL1Message_def versionedNonce_scenario relayL1Message_try_def
        scenario_sent_def relay_l2_def)
qed

text \<open>
  Claim C5: in one pass of \<open>relayPendingMessages\<close>, if relaying a pending message A
  raises and relaying a pending message B returns a receipt, then after the pass A's
  record is as it was (Pending) and B's record is Relayed; the pass attempts every
  pending message of the store, each once and in the order of the map, A and B among
  them, and it returns normally with the keys of the store unchanged.
\<close>

theorem relay_failures_are_isolated:
  assumes "relayPendingMessages lib l2 s = (s', attempts)"
    and "map_of (messageQueue (state s)) hA = Some mA"
    and "\<not> isRelayed mA" and "relayOf lib l2 mA = Inl e"
    and "map_of (messageQueue (state s)) hB = Some mB"
    and "\<not> isRelayed mB" and "relayOf lib l2 mB = Inr r"
  shows "map_of (messageQueue (state s')) hA = Some mA \<and>
         map_of (messageQueue (state s')) hB = Some (mB\<lparr>isRelayed := True\<rparr>) \<and>
         attempts = map fst (filter (\<lambda>(h, m). \<not> isRelayed m) (messageQueue (state s))) \<and>
         hA \<in> set attempts \<and> hB \<in> set attempts \<and>
         map fst (messageQueue (state s')) = map fst (messageQueue (state s))"
proof -
  let ?f = "\<lambda>m. if \<not> isRelayed m \<and> \<not> isl (relayOf lib l2 m) then m\<lparr>isRelayed := True\<rparr> else m"
  from assms(1) have s': "s' = fst (relayPendingMessages lib l2 s)"
    and att: "attempts = snd (relayPendingMessages lib l2 s)" by simp_all
  have q: "messageQueue (state s') = map (\<lambda>(h, m). (h, ?f m)) (messageQueue (state s))"
    unfolding s' by (rule relayPendingMessages_queue)
  have look: "map_of (messageQueue (state s')) k = map_option ?f (map_of (messageQueue (state s)) k)"
    for k unfolding q by (rule map_of_relayed)
  have a: "map_of (messageQueue (state s')) hA = Some mA"
    using assms(2,4) by (simp add: look)
  have b: "map_of (messageQueue (state s')) hB = Some (mB\<lparr>isRelayed := True\<rparr>)"
    using assms(5,6,7) by (simp add: look)
  have tr: "attempts = map fst (filter (\<lambda>(h, m). \<not> isRelayed m) (messageQueue (state s)))"
    unfolding att by (rule relayPendingMessages_attempts)
  from assms(2,3) have "(hA, mA) \<in> set (filter (\<lambda>(h, m). \<not> isRelayed m) (messageQueue (state s)))"
    by (auto dest: map_of_SomeD)
  then have ia: "hA \<in> set attempts" unfolding tr by force
  from assms(5,6) have "(hB, mB) \<in> set (filter (\<lambda>(h, m). \<not> isRelayed m) (messageQueue (state s)))"
    by (auto dest: map_of_SomeD)
  then have ib: "hB \<in> set attempts" unfolding tr by force
  have keys: "map fst (messageQueue (state s')) = map fst (messageQueue (state s))"
    unfolding q by (induction "messageQueue (state s)") auto
  from a b tr ia ib keys show ?thesis by simp
qed

theorem relay_failures_are_isolated_witness:
  "map_of (messageQueue (state (fst (relayPendingMessages stub_ethers relay_l2 two_pending))))
     (scenario_hash 0) = Some (pendingMessage (scenario_sent 105 0) 1700000000) \<and>
   map_of (messageQueue (state (fst (relayPendingMessages stub_ethers relay_l2 two_pending))))
     (scenario_hash 5) = Some ((pendingMessage (scenario_sent 105 5) 1700000000)\<lparr>isRelayed := True\<rparr>) \<and>
   snd (relayPendingMessages stub_ethers relay_l2 two_pending) = [scenario_hash 0, scenario_hash 5]"
proof -
  let ?mA = "pendingMessage (scenario_sent 105 0) 1700000000"
  let ?mB = "pendingMessage (scenario_sent 105 5) 1700000000"
  let ?r = "relayPendingMessages stub_ethers relay_l2 two_pending"
  have q: "messageQueue (state two_pending) = [(scenario_hash 0, ?mA), (scenario_hash 5, ?mB)]"
    by (simp add: two_pending_def)
  have r: "?r = (fst ?r, snd ?r)" by simp
  have a: "map_of (messageQueue (state two_pending)) (scenario_hash 0) = Some ?mA"
    by (simp add: q)
  have b: "map_of (messageQueue (state two_pending)) (scenario_hash 5) = Some ?mB"
    using scenario_hash_0_5 by (simp add: q)
  have pa: "\<not> isRelayed ?mA" and pb: "\<not> isRelayed ?mB" by simp_all
  from relay_failures_are_isolated
    [OF r a pa relayOf_scenario_reverts b pb relayOf_scenario_mined]
  show ?thesis by (simp add: q)
qed

section \<open>The cursors in a poll cycle\<close>

text \<open>
  In a poll cycle the cursors are assigned only under the guards
  \<open>latestL1Block > lastScannedL1Block\<close> and \<open>latestL2Block > lastScannedL2Block\<close>, so
  \<open>main\<close> never lowers them, whether it returns or raises.
\<close>

lemma indexNewMessages_cursors:
  "lastScannedL1Block (state s) \<le> lastScannedL1Block (state (snd (indexNewMessages lib l1 s))) \<and>
   lastScannedL2Block (state (snd (indexNewMessages lib l1 s))) = lastScannedL2Block (state s)"
proof (cases "l1_getBlockNumber l1")
  case (Inl e)
  then show ?thesis by (simp add: indexNewMessages_def)
next
  case (Inr latest)
  show ?thesis
  proof (cases "latest > lastScannedL1Block (state s)")
    case False
    with Inr show ?thesis by (simp add: indexNewMessages_def)
  next
    case True
    show ?thesis
    proof (cases "getSentMessageEvents lib l1 (lastScannedL1Block (state s) + 1) latest")
      case (Inl e)
      with Inr True show ?thesis by (simp add: indexNewMessages_def)
    next
      case scan: (Inr msgs)
      obtain r s1 where a: "addToQueue l1 msgs s = (r, s1)" by (cases "addToQueue l1 msgs s")
      from addToQueue_cursors [of l1 msgs s] a
      have c: "lastScannedL1Block (state s1) = lastScannedL1Block (state s)"
        "lastScannedL2Block (state s1) = lastScannedL2Block (state s)" by simp_all
      from Inr True scan a c show ?thesis
        by (cases r) (simp_all add: indexNewMessages_def service_defs)
    qed
  qed
qed

lemma checkRelayedMessages_cursors:
  "lastScannedL2Block (state s) \<le> lastScannedL2Block (state (snd (checkRelayedMessages l2 s))) \<and>
   lastScannedL1Block (state (snd (checkRelayedMessages l2 s))) = lastScannedL1Block (state s)"
  by (simp add: checkRelayedMessages_def markRelayed_frame service_defs split: sum.splits)

lemma updateMetrics_state: "state (updateMetrics s) = state s"
  by (simp add: updateMetrics_def)

lemma main_cursors_monotone:
  "lastScannedL1Block (state s) \<le> lastScannedL1Block (state (snd (main lib l1 l2 s))) \<and>
   lastScannedL2Block (state s) \<le> lastScannedL2Block (state (snd (main lib l1 l2 s)))"
proof -
  obtain r1 s1 where i: "indexNewMessages lib l1 s = (r1, s1)"
    by (cases "indexNewMessages lib l1 s")
  from indexNewMessages_cursors [of s lib l1] i
  have c1: "lastScannedL1Block (state s) \<le> lastScannedL1Block (state s1)"
    "lastScannedL2Block (state s1) = lastScannedL2Block (state s)" by simp_all
  show ?thesis
  proof (cases r1)
    case (Inl e)
    with i c1 show ?thesis by (simp add: main_def)
  next
    case (Inr u)
    obtain r2 s2 where c: "checkRelayedMessages l2 s1 = (r2, s2)"
      by (cases "checkRelayedMessages l2 s1")
    from checkRelayedMessages_cursors [of s1 l2] c
    have c2: "lastScannedL2Block (state s1) \<le> lastScannedL2Block (state s2)"
      "lastScannedL1Block (state s2) = lastScannedL1Block (state s1)" by simp_all
    show ?thesis
    proof (cases r2)
      case (Inl e)
      with i Inr c c1 c2 show ?thesis by (simp add: main_def)
    next
      case r2: (Inr u2)
      from i Inr c r2
      have "snd (main lib l1 l2 s) = updateMetrics (fst (relayPendingMessages lib l2 s2))"
        by (simp add: main_def)
      with c1 c2 show ?thesis
        by (simp add: updateMetrics_state relayPendingMessages_frame)
    qed
  qed
qed

section \<open>Indexing a message whose hash is in the store\<close>

lemma queueMessage_idem:
  "messageQueue (state (queueMessage msg ts (queueMessage msg ts s))) =
   messageQueue (state (queueMessage msg ts s))"
  by (simp add: queueMessage_queue)

lemma queueMessage_keys:
  "map fst (messageQueue (state (queueMessage msg ts s))) =
     (if messageHash msg \<in> set (map fst (messageQueue (state s)))
      then map fst (messageQueue (state s))
      else map fst (messageQueue (state s)) @ [messageHash msg])"
  by (simp add: queueMessage_queue update_keys)

lemma queueMessage_distinct:
  "distinct (map fst (messageQueue (state s))) \<Longrightarrow>
   distinct (map fst (messageQueue (state (queueMessage msg ts s))))"
  by (simp add: queueMessage_queue distinct_update)

lemma reindex_scenario:
  "indexNewMessages stub_ethers (scenario_l1 110 107) (scenario_service True) =
     (Inr (),
      set_lastScannedL1Block 110
        (queueMessage (scenario_sent 107 0) 1700000000 (scenario_service True)))"
proof -
  have h: "l1_getBlockNumber (scenario_l1 110 107) = Inr 110" by (simp add: scenario_l1_def)
  have c: "lastScannedL1Block (state (scenario_service True)) = 105"
    by (simp add: scenario_service_def)
  have s: "getSentMessageEvents stub_ethers (scenario_l1 110 107) 106 110 = Inr [scenario_sent 107 0]"
    by (simp add: scenario_scan)
  have b: "l1_getBlock (scenario_l1 110 107) (blockNumber (scenario_sent 107 0)) = Inr (Some 1700000000)"
    by (simp add: scenario_l1_def)
  show ?thesis by (simp add: indexNewMessages_def h c s b)
qed

text \<open>
  Claim C1, as stated, fails: the insert is \<open>Map.set\<close>, which overwrites. The store
  holds the scenario's message, Relayed. Inserting the record of the same send event puts
  it back to Pending; and so does a poll cycle in which the L1 node reports the same
  message again (the same six fields, hence the same hash), here in block 107.
\<close>

theorem reindexing_resets_relayed_counterexample:
  "map_of (messageQueue (state (scenario_service True))) (scenario_hash 0)
     = Some ((pendingMessage (scenario_sent 105 0) 1700000000)\<lparr>isRelayed := True\<rparr>) \<and>
   messageHash (scenario_sent 105 0) = scenario_hash 0 \<and>
   map_of (messageQueue (state (queueMessage (scenario_sent 105 0) 1700000000
                                 (scenario_service True)))) (scenario_hash 0)
     = Some (pendingMessage (scenario_sent 105 0) 1700000000) \<and>
   isRelayed (pendingMessage (scenario_sent 105 0) 1700000000) = False \<and>
   getSentMessageEvents stub_ethers (scenario_l1 110 107) 106 110 = Inr [scenario_sent 107 0] \<and>
   messageHash (scenario_sent 107 0) = scenario_hash 0 \<and>
   fst (indexNewMessages stub_ethers (scenario_l1 110 107) (scenario_service True)) = Inr () \<and>
   map_of (messageQueue (state (snd (indexNewMessages stub_ethers (scenario_l1 110 107)
                                      (scenario_service True))))) (scenario_hash 0)
     = Some (pendingMessage (scenario_sent 107 0) 1700000000)"
proof -
  have a: "map_of (messageQueue (state (scenario_service True))) (scenario_hash 0)
     = Some ((pendingMessage (scenario_sent 105 0) 1700000000)\<lparr>isRelayed := True\<rparr>)"
    by (simp add: scenario_service_def)
  have b: "messageHash (scenario_sent b 0) = scenario_hash 0" for b
    by (simp add: scenario_sent_def)
  have c: "map_of (messageQueue (state (queueMessage (scenario_sent b 0) 1700000000 s)))
             (scenario_hash 0) = Some (pendingMessage (scenario_sent b 0) 1700000000)" for b s
    by (simp add: queueMessage_lookup b)
  have d: "getSentMessageEvents stub_ethers (scenario_l1 110 107) 106 110 = Inr [scenario_sent 107 0]"
    by (simp add: scenario_scan)
  have e: "messageQueue (state (set_lastScannedL1Block n s)) = messageQueue (state s)" for n s
    by (simp add: service_defs)
  from a b c d show ?thesis by (simp add: reindex_scenario e)
qed

text \<open>
  Claim C1, amended: the indexing insert (\<open>messageQueue.set\<close> in \<open>indexNewMessages\<close> and
  \<open>indexHistoricalMessages\<close>) stores the scanned message under its hash with status
  Pending, whether or not the hash was present and whatever the status of the record it
  replaces. After a successful \<open>indexNewMessages\<close> every scanned hash is in the store
  with status Pending, and the records under all other hashes are as they were. The
  insert keeps one record per hash (the keys and their order do not change when the hash
  is present; distinct keys stay distinct) and inserting the same record twice leaves the
  store as inserting it once does.
\<close>

theorem indexing_insert_overwrites:
  assumes "l1_getBlockNumber l1 = Inr latest"
    and "lastScannedL1Block (state s) < latest"
    and "getSentMessageEvents lib l1 (lastScannedL1Block (state s) + 1) latest = Inr msgs"
    and "indexNewMessages lib l1 s = (Inr (), s')"
  shows "(\<forall>msg \<in> set msgs.
            \<exists>m. map_of (messageQueue (state s')) (messageHash msg) = Some m \<and> \<not> isRelayed m) \<and>
         (\<forall>k. k \<notin> messageHash ` set msgs \<longrightarrow>
            map_of (messageQueue (state s')) k = map_of (messageQueue (state s)) k) \<and>
         (\<forall>msg ts s0.
            map_of (messageQueue (state (queueMessage msg ts s0))) (messageHash msg)
              = Some (pendingMessage msg ts) \<and>
            \<not> isRelayed (pendingMessage msg ts) \<and>
            (\<forall>k. k \<noteq> messageHash msg \<longrightarrow>
               map_of (messageQueue (state (queueMessage msg ts s0))) k
                 = map_of (messageQueue (state s0)) k) \<and>
            messageQueue (state (queueMessage msg ts (queueMessage msg ts s0)))
              = messageQueue (state (queueMessage msg ts s0)) \<and>
            (messageHash msg \<in> set (map fst (messageQueue (state s0))) \<longrightarrow>
               map fst (messageQueue (state (queueMessage msg ts s0)))
                 = map fst (messageQueue (state s0))) \<and>
            (distinct (map fst (messageQueue (state s0))) \<longrightarrow>
               distinct (map fst (messageQueue (state (queueMessage msg ts s0))))))"
proof -
  obtain r s1 where a: "addToQueue l1 msgs s = (r, s1)" by (cases "addToQueue l1 msgs s")
  from assms a have r: "r = Inr ()" and s': "s' = set_lastScannedL1Block latest s1"
    by (cases r; simp add: indexNewMessages_def)+
  have q: "messageQueue (state s') = messageQueue (state s1)"
    by (simp add: s' service_defs)
  from a r have ok: "fst (addToQueue l1 msgs s) = Inr ()" and s1: "s1 = snd (addToQueue l1 msgs s)"
    by simp_all
  have p1: "\<forall>msg \<in> set msgs.
            \<exists>m. map_of (messageQueue (state s')) (messageHash msg) = Some m \<and> \<not> isRelayed m"
    unfolding q s1 using addToQueue_pending [OF ok] by blast
  have p2: "\<forall>k. k \<notin> messageHash ` set msgs \<longrightarrow>
            map_of (messageQueue (state s')) k = map_of (messageQueue (state s)) k"
    unfolding q s1 using addToQueue_other_keys by blast
  have p3: "\<forall>msg ts s0.
            map_of (messageQueue (state (queueMessage msg ts s0))) (messageHash msg)
              = Some (pendingMessage msg ts) \<and>
            \<not> isRelayed (pendingMessage msg ts) \<and>
            (\<forall>k. k \<noteq> messageHash msg \<longrightarrow>
               map_of (messageQueue (state (queueMessage msg ts s0))) k
                 = map_of (messageQueue (state s0)) k) \<and>
            messageQueue (state (queueMessage msg ts (queueMessage msg ts s0)))
              = messageQueue (state (queueMessage msg ts s0)) \<and>
            (messageHash msg \<in> set (map fst (messageQueue (state s0))) \<longrightarrow>
               map fst (messageQueue (state (queueMessage msg ts s0)))
                 = map fst (messageQueue (state s0))) \<and>
            (distinct (map fst (messageQueue (state s0))) \<longrightarrow>
               distinct (map fst (messageQueue (state (queueMessage msg ts s0)))))"
    using queueMessage_idem queueMessage_distinct
    by (simp add: queueMessage_lookup queueMessage_keys)
  from p1 p2 p3 show ?thesis by blast
qed

theorem indexing_insert_overwrites_witness:
  "(\<exists>m. map_of (messageQueue (state (snd (indexNewMessages stub_ethers (scenario_l1 110 107)
                                            (scenario_service True)))))
           (messageHash (scenario_sent 107 0)) = Some m \<and> \<not> isRelayed m) \<and>
   map_of (messageQueue (state (snd (indexNewMessages stub_ethers (scenario_l1 110 107)
                                      (scenario_service True))))) ''0xdead''
     = map_of (messageQueue (state (scenario_service True))) ''0xdead''"
proof -
  let ?l1 = "scenario_l1 110 107"
  let ?s = "scenario_service True"
  have h: "l1_getBlockNumber ?l1 = Inr 110" by (simp add: scenario_l1_def)
  have c: "lastScannedL1Block (state ?s) < 110" by (simp add: scenario_service_def)
  have s: "getSentMessageEvents stub_ethers ?l1 (lastScannedL1Block (state ?s) + 1) 110
             = Inr [scenario_sent 107 0]"
    by (simp add: scenario_scan scenario_service_def)
  have r: "indexNewMessages stub_ethers ?l1 ?s
             = (Inr (), snd (indexNewMessages stub_ethers ?l1 ?s))"
    by (simp add: reindex_scenario)
  have k: "''0xdead'' \<notin> messageHash ` set [scenario_sent 107 0]"
    using dead_not_scenario_hash [of 0] by (simp add: scenario_sent_def)
  from indexing_insert_overwrites [OF h c s r] k show ?thesis by simp
qed

section \<open>A failed read\<close>

text \<open>
  The service's own gauges are not touched by a failed read: the exception leaves
  \<open>main\<close> with the service as it was, and \<open>nodeConnectionFailures\<close> keeps its value
  in every poll cycle. The failure is counted by the loop that runs \<open>main\<close>.
\<close>

lemma relayLoop_failures:
  "nodeConnectionFailures (fst (snd (relayLoop lib l2 es mt))) = nodeConnectionFailures mt"
  by (induction es arbitrary: mt) (auto simp add: case_prod_beta split: sum.splits)

lemma relayPendingMessages_failures:
  "nodeConnectionFailures (metrics (fst (relayPendingMessages lib l2 s)))
     = nodeConnectionFailures (metrics s)"
  by (simp add: relayPendingMessages_def case_prod_beta relayLoop_failures)

lemma indexNewMessages_failures:
  "nodeConnectionFailures (metrics (snd (indexNewMessages lib l1 s)))
     = nodeConnectionFailures (metrics s)"
proof -
  have "nodeConnectionFailures (metrics (snd (addToQueue l1 msgs s)))
          = nodeConnectionFailures (metrics s)" for msgs
    using addToQueue_cursors [of l1 msgs s] by simp
  then show ?thesis
    by (simp add: indexNewMessages_def case_prod_beta service_defs split: sum.splits)
qed

lemma checkRelayedMessages_failures:
  "nodeConnectionFailures (metrics (snd (checkRelayedMessages l2 s)))
     = nodeConnectionFailures (metrics s)"
  by (simp add: checkRelayedMessages_def markRelayed_frame service_defs split: sum.splits)

lemma main_failures_unchanged:
  "nodeConnectionFailures (metrics (snd (main lib l1 l2 s))) = nodeConnectionFailures (metrics s)"
proof -
  obtain r1 s1 where i: "indexNewMessages lib l1 s = (r1, s1)"
    by (cases "indexNewMessages lib l1 s")
  obtain r2 s2 where c: "checkRelayedMessages l2 s1 = (r2, s2)"
    by (cases "checkRelayedMessages l2 s1")
  from indexNewMessages_failures [of lib l1 s] i
  have f1: "nodeConnectionFailures (metrics s1) = nodeConnectionFailures (metrics s)" by simp
  from checkRelayedMessages_failures [of l2 s1] c
  have f2: "nodeConnectionFailures (metrics s2) = nodeConnectionFailures (metrics s1)" by simp
  have f3: "nodeConnectionFailures (metrics (updateMetrics (fst (relayPendingMessages lib l2 s2))))
              = nodeConnectionFailures (metrics s2)"
    by (simp add: updateMetrics_def relayPendingMessages_failures)
  from i c f1 f2 f3 show ?thesis
    by (cases r1; cases r2) (simp_all add: main_def)
qed

lemma read_failure_leaves_service:
  "indexNewMessages lib (l1\<lparr>l1_getBlockNumber := Inl e\<rparr>) s = (Inl e, s) \<and>
   indexNewMessages lib
     (l1\<lparr>l1_getBlockNumber := Inr (lastScannedL1Block (state s) + 1),
         l1_querySentMessage := (\<lambda>f t. Inl e)\<rparr>) s = (Inl e, s) \<and>
   checkRelayedMessages (l2\<lparr>l2_getBlockNumber := Inl e\<rparr>) s = (Inl e, s) \<and>
   checkRelayedMessages
     (l2\<lparr>l2_getBlockNumber := Inr (lastScannedL2Block (state s) + 1),
         l2_queryRelayedMessage := (\<lambda>f t. Inl e)\<rparr>) s = (Inl e, s) \<and>
   main lib (l1\<lparr>l1_getBlockNumber := Inl e\<rparr>) l2 s = (Inl e, s) \<and>
   nodeConnectionFailures (metrics (snd (main lib (l1\<lparr>l1_getBlockNumber := Inl e\<rparr>) l2 s)))
     = nodeConnectionFailures (metrics s)"
  by (simp add: indexNewMessages_def checkRelayedMessages_def main_def
      getSentMessageEvents_def getRelayedMessageEvents_def)

lemma indexNewMessages_read_fails:
  assumes "l1_getBlockNumber l1 = Inl e \<or>
           (\<exists>latest. l1_getBlockNumber l1 = Inr latest \<and> lastScannedL1Block (state s) < latest \<and>
              (l1_querySentMessage l1 (lastScannedL1Block (state s) + 1) latest = Inl e \<or>
               (\<exists>sent. l1_querySentMessage l1 (lastScannedL1Block (state s) + 1) latest = Inr sent \<and>
                  l1_queryExtension l1 (lastScannedL1Block (state s) + 1) latest = Inl e)))"
  shows "indexNewMessages lib l1 s = (Inl e, s)"
  using assms
  by (auto simp add: indexNewMessages_def getSentMessageEvents_def)

lemma checkRelayedMessages_read_fails:
  assumes "l2_getBlockNumber l2 = Inl e \<or>
           (\<exists>latest. l2_getBlockNumber l2 = Inr latest \<and> lastScannedL2Block (state s) < latest \<and>
              l2_queryRelayedMessage l2 (lastScannedL2Block (state s) + 1) latest = Inl e)"
  shows "checkRelayedMessages l2 s = (Inl e, s)"
  using assms
  by (auto simp add: checkRelayedMessages_def getRelayedMessageEvents_def)

text \<open>
  Claim C6: on a transient read failure the affected cursor is unchanged and a failure
  counter is incremented. If fetching the block height or scanning the logs is rejected in
  \<open>indexNewMessages\<close>, the cycle raises with the service as it was, so
  \<open>lastScannedL1Block\<close> keeps its value, the loop counts one more unhandled error, and
  the next cycle does what it would have done had the failed cycle not run: it scans again
  from the same block. If \<open>indexNewMessages\<close> returned and the read is rejected in
  \<open>checkRelayedMessages\<close>, the cycle raises, \<open>lastScannedL2Block\<close> keeps its value
  and the loop counts one more unhandled error.
\<close>

theorem read_failure_keeps_cursor_and_counts:
  "((l1_getBlockNumber l1 = Inl e \<or>
     (\<exists>latest. l1_getBlockNumber l1 = Inr latest \<and>
        lastScannedL1Block (state (runner_service r)) < latest \<and>
        (l1_querySentMessage l1 (lastScannedL1Block (state (runner_service r)) + 1) latest = Inl e \<or>
         (\<exists>sent. l1_querySentMessage l1 (lastScannedL1Block (state (runner_service r)) + 1) latest
                    = Inr sent \<and>
            l1_queryExtension l1 (lastScannedL1Block (state (runner_service r)) + 1) latest
              = Inl e)))) \<longrightarrow>
      indexNewMessages lib l1 (runner_service r) = (Inl e, runner_service r) \<and>
      main lib l1 l2 (runner_service r) = (Inl e, runner_service r) \<and>
      doLoop lib l1 l2 r
        = \<lparr>runner_service = runner_service r, unhandledErrors = unhandledErrors r + 1\<rparr> \<and>
      lastScannedL1Block (state (runner_service (doLoop lib l1 l2 r)))
        = lastScannedL1Block (state (runner_service r)) \<and>
      runner_service (doLoop lib l1' l2' (doLoop lib l1 l2 r))
        = runner_service (doLoop lib l1' l2' r)) \<and>
   (indexNewMessages lib l1 (runner_service r) = (Inr (), s1) \<and>
    (l2_getBlockNumber l2 = Inl e \<or>
     (\<exists>latest. l2_getBlockNumber l2 = Inr latest \<and> lastScannedL2Block (state s1) < latest \<and>
        l2_queryRelayedMessage l2 (lastScannedL2Block (state s1) + 1) latest = Inl e)) \<longrightarrow>
      checkRelayedMessages l2 s1 = (Inl e, s1) \<and>
      main lib l1 l2 (runner_service r) = (Inl e, s1) \<and>
      doLoop lib l1 l2 r = \<lparr>runner_service = s1, unhandledErrors = unhandledErrors r + 1\<rparr> \<and>
      lastScannedL2Block (state (runner_service (doLoop lib l1 l2 r)))
        = lastScannedL2Block (state (runner_service r)))"
proof -
  let ?s = "runner_service r"
  have one: "indexNewMessages lib l1 ?s = (Inl e, ?s) \<and>
      main lib l1 l2 ?s = (Inl e, ?s) \<and>
      doLoop lib l1 l2 r = \<lparr>runner_service = ?s, unhandledErrors = unhandledErrors r + 1\<rparr> \<and>
      lastScannedL1Block (state (runner_service (doLoop lib l1 l2 r)))
        = lastScannedL1Block (state ?s) \<and>
      runner_service (doLoop lib l1' l2' (doLoop lib l1 l2 r))
        = runner_service (doLoop lib l1' l2' r)"
    if f: "l1_getBlockNumber l1 = Inl e \<or>
     (\<exists>latest. l1_getBlockNumber l1 = Inr latest \<and> lastScannedL1Block (state ?s) < latest \<and>
        (l1_querySentMessage l1 (lastScannedL1Block (state ?s) + 1) latest = Inl e \<or>
         (\<exists>sent. l1_querySentMessage l1 (lastScannedL1Block (state ?s) + 1) latest = Inr sent \<and>
            l1_queryExtension l1 (lastScannedL1Block (state ?s) + 1) latest = Inl e)))"
  proof -
    from f have i: "indexNewMessages lib l1 ?s = (Inl e, ?s)"
      by (rule indexNewMessages_read_fails)
    then have m: "main lib l1 l2 ?s = (Inl e, ?s)" by (simp add: main_def)
    then have d: "doLoop lib l1 l2 r
        = \<lparr>runner_service = ?s, unhandledErrors = unhandledErrors r + 1\<rparr>"
      by (simp add: doLoop_def)
    have n: "runner_service (doLoop lib l1' l2' (doLoop lib l1 l2 r))
        = runner_service (doLoop lib l1' l2' r)"
    proof -
      have "runner_service (doLoop lib l1' l2' \<lparr>runner_service = ?s, unhandledErrors = k\<rparr>)
              = snd (main lib l1' l2' ?s)" for k
        by (simp add: doLoop_def case_prod_beta split: sum.splits)
      then show ?thesis by (simp add: d) (simp add: doLoop_def case_prod_beta split: sum.splits)
    qed
    from i m d n show ?thesis by simp
  qed
  have two: "checkRelayedMessages l2 s1 = (Inl e, s1) \<and>
      main lib l1 l2 ?s = (Inl e, s1) \<and>
      doLoop lib l1 l2 r = \<lparr>runner_service = s1, unhandledErrors = unhandledErrors r + 1\<rparr> \<and>
      lastScannedL2Block (state (runner_service (doLoop lib l1 l2 r)))
        = lastScannedL2Block (state ?s)"
    if i: "indexNewMessages lib l1 ?s = (Inr (), s1)"
      and f: "l2_getBlockNumber l2 = Inl e \<or>
     (\<exists>latest. l2_getBlockNumber l2 = Inr latest \<and> lastScannedL2Block (state s1) < latest \<and>
        l2_queryRelayedMessage l2 (lastScannedL2Block (state s1) + 1) latest = Inl e)"
  proof -
    from f have c: "checkRelayedMessages l2 s1 = (Inl e, s1)"
      by (rule checkRelayedMessages_read_fails)
    with i have m: "main lib l1 l2 ?s = (Inl e, s1)" by (simp add: main_def)
    then have d: "doLoop lib l1 l2 r
        = \<lparr>runner_service = s1, unhandledErrors = unhandledErrors r + 1\<rparr>"
      by (simp add: doLoop_def)
    from indexNewMessages_cursors [of ?s lib l1] i
    have k: "lastScannedL2Block (state s1) = lastScannedL2Block (state ?s)" by simp
    from c m d k show ?thesis by simp
  qed
  from one two show ?thesis by blast
qed

theorem read_failure_keeps_cursor_and_counts_witness:
  "doLoop stub_ethers down_l1 down_l2 \<lparr>runner_service = scenario_service False, unhandledErrors = 0\<rparr>
     = \<lparr>runner_service = scenario_service False, unhandledErrors = 1\<rparr> \<and>
   doLoop stub_ethers (down_l1\<lparr>l1_getBlockNumber := Inr 110\<rparr>) down_l2
       \<lparr>runner_service = scenario_service False, unhandledErrors = 0\<rparr>
     = \<lparr>runner_service = scenario_service False, unhandledErrors = 1\<rparr> \<and>
   doLoop stub_ethers (quiet_l1 105) down_l2
       \<lparr>runner_service = scenario_service False, unhandledErrors = 0\<rparr>
     = \<lparr>runner_service = scenario_service False, unhandledErrors = 1\<rparr> \<and>
   lastScannedL1Block (state (scenario_service False)) = 105 \<and>
   lastScannedL2Block (state (scenario_service False)) = 100"
proof -
  let ?r = "\<lparr>runner_service = scenario_service False, unhandledErrors = 0\<rparr>"
  let ?e = "ProviderError ''timeout''"
  have c1: "lastScannedL1Block (state (scenario_service False)) = 105"
    and c2: "lastScannedL2Block (state (scenario_service False)) = 100"
    by (simp_all add: scenario_service_def)
  have a: "l1_getBlockNumber down_l1 = Inl ?e" by (simp add: down_l1_def)
  have b: "\<exists>latest. l1_getBlockNumber (down_l1\<lparr>l1_getBlockNumber := Inr 110\<rparr>) = Inr latest \<and>
        lastScannedL1Block (state (runner_service ?r)) < latest \<and>
        (l1_querySentMessage (down_l1\<lparr>l1_getBlockNumber := Inr 110\<rparr>)
           (lastScannedL1Block (state (runner_service ?r)) + 1) latest = Inl ?e \<or>
         (\<exists>sent. l1_querySentMessage (down_l1\<lparr>l1_getBlockNumber := Inr 110\<rparr>)
                    (lastScannedL1Block (state (runner_service ?r)) + 1) latest = Inr sent \<and>
            l1_queryExtension (down_l1\<lparr>l1_getBlockNumber := Inr 110\<rparr>)
              (lastScannedL1Block (state (runner_service ?r)) + 1) latest = Inl ?e))"
    by (simp add: down_l1_def c1)
  have i: "indexNewMessages stub_ethers (quiet_l1 105) (runner_service ?r)
             = (Inr (), scenario_service False)"
    by (simp add: indexNewMessages_def quiet_l1_def c1)
  have f: "l2_getBlockNumber down_l2 = Inl ?e" by (simp add: down_l2_def)
  from read_failure_keeps_cursor_and_counts
    [of down_l1 ?e ?r stub_ethers down_l2 down_l1 down_l2 "scenario_service False"] a
  have 1: "doLoop stub_ethers down_l1 down_l2 ?r
     = \<lparr>runner_service = scenario_service False, unhandledErrors = 1\<rparr>" by simp
  from read_failure_keeps_cursor_and_counts
    [of "down_l1\<lparr>l1_getBlockNumber := Inr 110\<rparr>" ?e ?r stub_ethers down_l2 down_l1 down_l2
       "scenario_service False"] b
  have 2: "doLoop stub_ethers (down_l1\<lparr>l1_getBlockNumber := Inr 110\<rparr>) down_l2 ?r
     = \<lparr>runner_service = scenario_service False, unhandledErrors = 1\<rparr>" by simp
  from read_failure_keeps_cursor_and_counts
    [of "quiet_l1 105" ?e ?r stub_ethers down_l2 down_l1 down_l2 "scenario_service False"] i f
  have 3: "doLoop stub_ethers (quiet_l1 105) down_l2 ?r
     = \<lparr>runner_service = scenario_service False, unhandledErrors = 1\<rparr>" by simp
  from 1 2 3 c1 c2 show ?thesis by simp
qed

end
